theory Spec2Isabelle
  imports Main "HOL-Library.Char_ord" "HOL-Library.List_Lexorder" "HOL-Library.Multiset"
begin

section \<open>Strings, panics and decoded JSON values\<close>

text \<open>
  A Go \<^verbatim>\<open>string\<close> is a sequence of bytes: \<^verbatim>\<open>len\<close> counts bytes, slicing cuts
  at byte offsets and \<^verbatim>\<open><\<close> compares bytewise, a proper prefix being smaller. The
  type \<^typ>\<open>string\<close> (a list of 8-bit characters) with the lexicographic order on lists
  is exactly that. Go's \<^verbatim>\<open>int\<close> is modelled by \<^typ>\<open>int\<close>; lengths are naturals.
\<close>

datatype panic = SliceBoundsOutOfRange | IndexOutOfRange

text \<open>The source literal for the ellipsis is the code point U+2026, three bytes in UTF-8.\<close>

definition ellipsis :: string where
  "ellipsis = [CHR 0xE2, CHR 0x80, CHR 0xA6]"

text \<open>
  The slice expression \<^verbatim>\<open>s[:n]\<close> of Go: a run-time panic when \<open>n\<close> is negative or
  beyond the length, the first \<open>n\<close> elements otherwise.
\<close>

definition slice_to :: "'a list \<Rightarrow> int \<Rightarrow> panic + 'a list" where
  "slice_to s n =
     (if n < 0 \<or> int (length s) < n then Inl SliceBoundsOutOfRange
      else Inr (take (nat n) s))"

text \<open>
  \<^verbatim>\<open>func truncateString(s string, maxLen int) string\<close>:
  \<^verbatim>\<open>if len(s) <= maxLen { return s }; return s[:maxLen-1] + "\<dots>"\<close>.
\<close>

definition truncateString :: "string \<Rightarrow> int \<Rightarrow> panic + string" where
  "truncateString s maxLen =
     (if int (length s) \<le> maxLen then Inr s
      else (case slice_to s (maxLen - 1) of
              Inl p \<Rightarrow> Inl p
            | Inr pre \<Rightarrow> Inr (pre @ ellipsis)))"

text \<open>
  What \<^verbatim>\<open>encoding/json\<close> decodes into an \<^verbatim>\<open>interface{}\<close>: nil, bool, float64,
  string, \<^verbatim>\<open>[]interface{}\<close> and \<^verbatim>\<open>map[string]interface{}\<close>. The numbers are kept
  abstract (type \<open>'n\<close>). A Go map is represented by an association list read through
  \<^const>\<open>map_of\<close>; only its key set and its lookups are ever used.
\<close>

datatype 'n jv =
    JNull
  | JBool bool
  | JNum 'n
  | JStr string
  | JArr "'n jv list"
  | JObj "(string \<times> 'n jv) list"

type_synonym 'n row = "(string \<times> 'n jv) list"

text \<open>
  Ranging over a map and sorting the collected keys with \<^verbatim>\<open>sort.Strings\<close>: the
  iteration order of the map is lost, the result is the key set in increasing order.
\<close>

definition sortedKeys :: "(string \<times> 'v) list \<Rightarrow> string list" where
  "sortedKeys r = sort (remdups (map fst r))"

definition joinWith :: "string \<Rightarrow> string list \<Rightarrow> string" where
  "joinWith sep xs = concat (case xs of [] \<Rightarrow> [] | y # ys \<Rightarrow> y # map (\<lambda>z. sep @ z) ys)"

text \<open>
  \<^verbatim>\<open>fmt.Sprintf("%v", v)\<close> on a decoded value: \<^verbatim>\<open><nil>\<close> for nil, the string itself,
  \<^verbatim>\<open>true\<close>/\<^verbatim>\<open>false\<close>, \<^verbatim>\<open>[a b c]\<close> for a slice and \<^verbatim>\<open>map[k:v ...]\<close> with the keys
  in increasing order for a map. The formatting of a float64 is the parameter \<open>fmtFloat\<close>.
\<close>

primrec sprintv :: "('n \<Rightarrow> string) \<Rightarrow> 'n jv \<Rightarrow> string" where
  "sprintv fmtFloat JNull = ''<nil>''"
| "sprintv fmtFloat (JBool b) = (if b then ''true'' else ''false'')"
| "sprintv fmtFloat (JNum x) = fmtFloat x"
| "sprintv fmtFloat (JStr s) = s"
| "sprintv fmtFloat (JArr xs) = ''['' @ joinWith '' '' (map (sprintv fmtFloat) xs) @ '']''"
| "sprintv fmtFloat (JObj kvs) =
     (let ss = map (map_prod id (sprintv fmtFloat)) kvs in
      ''map['' @ joinWith '' '' (map (\<lambda>k. k @ '':'' @ the (map_of ss k)) (sortedKeys ss)) @ '']'')"

text \<open>
  \<^verbatim>\<open>fmt.Sprintf("%v", row[k])\<close>: indexing a map with a missing key yields the nil
  interface, printed like a JSON null.
\<close>

definition cellString :: "('n \<Rightarrow> string) \<Rightarrow> 'n row \<Rightarrow> string \<Rightarrow> string" where
  "cellString fmtFloat r k =
     (case map_of r k of None \<Rightarrow> ''<nil>'' | Some v \<Rightarrow> sprintv fmtFloat v)"

section \<open>The history store\<close>

text \<open>
  \<^verbatim>\<open>type HistoryEntry struct { Query string; Timestamp time.Time }\<close> and
  \<^verbatim>\<open>type History struct { Entries []HistoryEntry }\<close>. An instant is a number; the
  reading of the clock (\<^verbatim>\<open>time.Now()\<close>) is an argument of the operation that reads it.
\<close>

type_synonym instant = int

record HistoryEntry =
  Query :: string
  Timestamp :: instant

record History =
  Entries :: "HistoryEntry list"

text \<open>
  \<^verbatim>\<open>func appendHistory(h *History, query string, maxLen int)\<close>. The library function
  \<^verbatim>\<open>strings.TrimSpace\<close> is the parameter \<open>trimSpace\<close>. The function mutates \<open>h\<close>; the
  model returns the new history, or the panic of \<^verbatim>\<open>h.Entries[:maxLen]\<close>.
\<close>

definition appendHistory ::
  "(string \<Rightarrow> string) \<Rightarrow> instant \<Rightarrow> History \<Rightarrow> string \<Rightarrow> int \<Rightarrow> panic + History" where
  "appendHistory trimSpace now h query maxLen =
     (let q = trimSpace query in
      if q = [] then Inr h
      else if 0 < length (Entries h) \<and> Query (hd (Entries h)) = q
      then Inr (h\<lparr>Entries := (hd (Entries h))\<lparr>Timestamp := now\<rparr> # tl (Entries h)\<rparr>)
      else
        (let es = \<lparr>Query = q, Timestamp = now\<rparr> # Entries h in
         if maxLen < int (length es)
         then (case slice_to es maxLen of
                 Inl p \<Rightarrow> Inl p
               | Inr es' \<Rightarrow> Inr (h\<lparr>Entries := es'\<rparr>))
         else Inr (h\<lparr>Entries := es\<rparr>)))"

text \<open>
  The delete handler of the history list, on the history itself:
  \<^verbatim>\<open>if currentItem >= 0 && currentItem < len(hist.Entries) {
      hist.Entries = append(hist.Entries[:currentItem], hist.Entries[currentItem+1:]...) }\<close>.
\<close>

definition deleteEntry :: "History \<Rightarrow> int \<Rightarrow> History" where
  "deleteEntry h currentItem =
     (if 0 \<le> currentItem \<and> currentItem < int (length (Entries h))
      then h\<lparr>Entries := take (nat currentItem) (Entries h) @ drop (nat currentItem + 1) (Entries h)\<rparr>
      else h)"

text \<open>Sequences of history operations, run from left to right; a panic ends the run.\<close>

datatype histOp = OpAppend string instant | OpDelete int

fun histStep :: "(string \<Rightarrow> string) \<Rightarrow> int \<Rightarrow> History \<Rightarrow> histOp \<Rightarrow> panic + History" where
  "histStep trimSpace maxLen h (OpAppend query now) = appendHistory trimSpace now h query maxLen"
| "histStep trimSpace maxLen h (OpDelete i) = Inr (deleteEntry h i)"

fun histRun :: "(string \<Rightarrow> string) \<Rightarrow> int \<Rightarrow> History \<Rightarrow> histOp list \<Rightarrow> panic + History" where
  "histRun trimSpace maxLen h [] = Inr h"
| "histRun trimSpace maxLen h (op # ops) =
     (case histStep trimSpace maxLen h op of
        Inl p \<Rightarrow> Inl p
      | Inr h' \<Rightarrow> histRun trimSpace maxLen h' ops)"

fun isAppend :: "histOp \<Rightarrow> bool" where
  "isAppend (OpAppend q t) = True"
| "isAppend (OpDelete i) = False"

definition emptyHistory :: History where
  "emptyHistory = \<lparr>Entries = []\<rparr>"

definition queries :: "History \<Rightarrow> string list" where
  "queries h = map Query (Entries h)"

text \<open>
  A stand-in for \<^verbatim>\<open>strings.TrimSpace\<close> on ASCII text, used to run the operations on
  concrete queries: it strips the six ASCII white-space characters at both ends.
\<close>

definition asciiSpace :: "char \<Rightarrow> bool" where
  "asciiSpace c = (c \<in> set [CHR '' '', CHR 0x09, CHR 0x0A, CHR 0x0B, CHR 0x0C, CHR 0x0D])"

definition trimAscii :: "string \<Rightarrow> string" where
  "trimAscii s = rev (dropWhile asciiSpace (rev (dropWhile asciiSpace s)))"

text \<open>Appending a list of queries, each with the instant of its submission.\<close>

definition mkOps :: "(string \<times> instant) list \<Rightarrow> histOp list" where
  "mkOps qs = map (\<lambda>(q, t). OpAppend q t) qs"

definition mkEntries :: "(string \<Rightarrow> string) \<Rightarrow> (string \<times> instant) list \<Rightarrow> HistoryEntry list" where
  "mkEntries trimSpace qs = map (\<lambda>(q, t). \<lparr>Query = trimSpace q, Timestamp = t\<rparr>) qs"

section \<open>Configuration\<close>

text \<open>\<^verbatim>\<open>type Config struct\<close> and \<^verbatim>\<open>func DefaultConfig() Config\<close>.\<close>

record Config =
  ScrollAcceleration :: int
  ScrollRepeatThreshold :: int
  ScrollRepeatTimeoutMs :: int
  PageScrollStep :: int
  MaxHistoryEntries :: int
  ConnectionCheckSec :: int
  MaxColumnWidth :: int

definition DefaultConfig :: Config where
  "DefaultConfig =
     \<lparr>ScrollAcceleration = 3, ScrollRepeatThreshold = 3, ScrollRepeatTimeoutMs = 150,
      PageScrollStep = 10, MaxHistoryEntries = 200, ConnectionCheckSec = 5,
      MaxColumnWidth = 40\<rparr>"

section \<open>Rendering a list of row-maps\<close>

text \<open>
  A table cell is the text given to \<^verbatim>\<open>tview.NewTableCell\<close> with the width given to
  \<^verbatim>\<open>SetMaxWidth\<close>; a table is the list of its rows of cells, the header first. A
  cleared table has no rows.
\<close>

type_synonym cell = "string \<times> int"

definition minColWidth :: int where
  "minColWidth = 8"

text \<open>
  The body of the loop \<^verbatim>\<open>for _, k := range cols\<close> that fills \<^verbatim>\<open>colWidths[k]\<close>: the
  width starts at the length of the header, is raised to \<^verbatim>\<open>minColWidth\<close>, then to the
  longest stringified value among the rows \<^verbatim>\<open>i < len(data) && i < 5\<close>, and is capped
  last at \<^verbatim>\<open>cfg.MaxColumnWidth\<close>.
\<close>

definition columnWidth :: "('n \<Rightarrow> string) \<Rightarrow> Config \<Rightarrow> 'n row list \<Rightarrow> string \<Rightarrow> int" where
  "columnWidth fmtFloat cfg data k =
     (let width = int (length k);
          width = (if width < minColWidth then minColWidth else width);
          width = foldl (\<lambda>w r. let val = cellString fmtFloat r k
                               in if w < int (length val) then int (length val) else w)
                    width (take 5 data)
      in if MaxColumnWidth cfg < width then MaxColumnWidth cfg else width)"

text \<open>
  The body of the inner loop over the rows: the value is stringified and, when longer
  than the width of its column, replaced by \<^verbatim>\<open>truncateString(s, colWidths[k])\<close>.
\<close>

definition renderCell ::
  "('n \<Rightarrow> string) \<Rightarrow> Config \<Rightarrow> 'n row list \<Rightarrow> 'n row \<Rightarrow> string \<Rightarrow> panic + cell" where
  "renderCell fmtFloat cfg data r k =
     (let s = cellString fmtFloat r k; w = columnWidth fmtFloat cfg data k in
      if w < int (length s)
      then (case truncateString s w of Inl p \<Rightarrow> Inl p | Inr s' \<Rightarrow> Inr (s', w))
      else Inr (s, w))"

fun mapE :: "('a \<Rightarrow> 'e + 'b) \<Rightarrow> 'a list \<Rightarrow> 'e + 'b list" where
  "mapE f [] = Inr []"
| "mapE f (x # xs) =
     (case f x of
        Inl e \<Rightarrow> Inl e
      | Inr y \<Rightarrow> (case mapE f xs of Inl e \<Rightarrow> Inl e | Inr ys \<Rightarrow> Inr (y # ys)))"

text \<open>
  \<^verbatim>\<open>func renderJSONToTable(data, table, columns, cfg)\<close>. The table is cleared; with no
  data nothing else happens and \<^verbatim>\<open>*columns\<close> keeps its value. Otherwise the columns
  are the sorted keys of \<^verbatim>\<open>data[0]\<close>, the header row holds the column names and every
  data row one cell per column. The result is the new table and the new \<^verbatim>\<open>*columns\<close>,
  or the panic of a truncation.
\<close>

definition renderJSONToTable ::
  "('n \<Rightarrow> string) \<Rightarrow> 'n row list \<Rightarrow> string list \<Rightarrow> Config \<Rightarrow>
     panic + (cell list list \<times> string list)" where
  "renderJSONToTable fmtFloat data columns cfg =
     (if length data = 0 then Inr ([], columns)
      else
        (let cols = sortedKeys (hd data);
             header = map (\<lambda>k. (k, columnWidth fmtFloat cfg data k)) cols
         in case mapE (\<lambda>r. mapE (renderCell fmtFloat cfg data r) cols) data of
              Inl p \<Rightarrow> Inl p
            | Inr rows \<Rightarrow> Inr (header # rows, cols)))"

section \<open>The session state\<close>

text \<open>Decimal formatting of \<^verbatim>\<open>%d\<close>.\<close>

fun decimal :: "nat \<Rightarrow> string" where
  "decimal n = (if n < 10 then [char_of (48 + n)] else decimal (n div 10) @ [char_of (48 + n mod 10)])"

declare decimal.simps [simp del]

definition showInt :: "int \<Rightarrow> string" where
  "showInt i = (if i < 0 then ''-'' @ decimal (nat (- i)) else decimal (nat i))"

datatype pane = Editor | HistoryList | Results | Detail | Raw

text \<open>
  The variables that the closures of \<^verbatim>\<open>main\<close> share, and the parts of the widgets they
  write: the cells, title and selection of the results table, the texts of the detail,
  raw-output and status views, and the focused pane.
\<close>

record 'n session =
  hist :: History
  currentRowCount :: int
  currentData :: "'n row list"
  currentColumns :: "string list"
  sortColumn :: int
  sortAscending :: bool
  table :: "cell list list"
  tableTitle :: string
  selection :: "int \<times> int"
  detailText :: string
  rawText :: string
  statusText :: string
  focus :: pane

definition newline :: string where
  "newline = [CHR 0x0A]"

text \<open>
  One turn of the loop over the sorted keys in \<^verbatim>\<open>updateDetailView\<close>: the value is cut
  to its first 200 bytes plus the ellipsis when longer, and the line
  \<^verbatim>\<open>[yellow]key:[white] value\<close> is written to the builder.
\<close>

definition detailLine :: "('n \<Rightarrow> string) \<Rightarrow> 'n row \<Rightarrow> string \<Rightarrow> string" where
  "detailLine fmtFloat rowData k =
     (let valStr = cellString fmtFloat rowData k;
          valStr = (if 200 < length valStr then take 200 valStr @ ellipsis else valStr)
      in ''[yellow]'' @ k @ '':[white] '' @ valStr @ newline)"

definition updateDetailView :: "('n \<Rightarrow> string) \<Rightarrow> 'n session \<Rightarrow> 'n session" where
  "updateDetailView fmtFloat s =
     (let row = fst (selection s) in
      if row \<le> 0 \<or> int (length (currentData s)) < row
      then s\<lparr>detailText := ''[yellow]No row selected''\<rparr>
      else
        (let rowData = currentData s ! nat (row - 1);
             details = ''[yellow::b]Row '' @ showInt row @ ''/'' @
                       showInt (int (length (currentData s))) @ ''[white]'' @ newline;
             keys = sortedKeys rowData
         in s\<lparr>detailText := foldl (\<lambda>details k. details @ detailLine fmtFloat rowData k) details keys\<rparr>))"

text \<open>
  The copy of \<^verbatim>\<open>updateDetailView\<close> in \<^verbatim>\<open>src/unnamed/part_000\<close>. Its comment announces
  the keys in sorted order, but the keys collected by \<^verbatim>\<open>for k := range rowData\<close> are
  not sorted there, so the lines come in the order in which the loop visits the keys of
  the map. The language does not fix that order; it is the parameter \<open>rangeKeys\<close>, which
  yields every key of the map once.
\<close>

definition updateDetailView_part000 ::
  "('n \<Rightarrow> string) \<Rightarrow> ('n row \<Rightarrow> string list) \<Rightarrow> 'n session \<Rightarrow> 'n session" where
  "updateDetailView_part000 fmtFloat rangeKeys s =
     (let row = fst (selection s) in
      if row \<le> 0 \<or> int (length (currentData s)) < row
      then s\<lparr>detailText := ''[yellow]No row selected''\<rparr>
      else
        (let rowData = currentData s ! nat (row - 1);
             details = ''[yellow::b]Row '' @ showInt row @ ''/'' @
                       showInt (int (length (currentData s))) @ ''[white]'' @ newline;
             keys = rangeKeys rowData
         in s\<lparr>detailText := foldl (\<lambda>details k. details @ detailLine fmtFloat rowData k) details keys\<rparr>))"

text \<open>
  \<^verbatim>\<open>resultsTable.Select(row, col)\<close>: the selection is set and the table's
  selection-changed handler runs, which is
  \<^verbatim>\<open>if row > 0 && len(currentData) > 0 { updateDetailView() }\<close>.
\<close>

definition selectCell :: "('n \<Rightarrow> string) \<Rightarrow> 'n session \<Rightarrow> int \<Rightarrow> int \<Rightarrow> 'n session" where
  "selectCell fmtFloat s row col =
     (let s = s\<lparr>selection := (row, col)\<rparr> in
      if 0 < row \<and> 0 < length (currentData s) then updateDetailView fmtFloat s else s)"

section \<open>Sorting by a column\<close>







section \<open>Persistence of the history\<close>

text \<open>
  The operating system as the history functions see it: the environment variable
  \<^verbatim>\<open>XDG_CONFIG_HOME\<close>, the result of \<^verbatim>\<open>user.Current()\<close> (the home directory or an
  error), the files, and whether \<^verbatim>\<open>os.MkdirAll\<close> and \<^verbatim>\<open>ioutil.WriteFile\<close> fail at a
  path. A file is missing, unreadable or has a content; a write that succeeds leaves the
  written content at its path, to be read back by \<^verbatim>\<open>ioutil.ReadFile\<close>.
\<close>

datatype ioerr = IOErr string

fun errText :: "ioerr \<Rightarrow> string" where
  "errText (IOErr msg) = msg"








section \<open>Running a query\<close>


text \<open>
  The values that \<^verbatim>\<open>fetchQuery\<close> returns in its first result, by their Go type:
  \<^verbatim>\<open>[]map[string]interface{}\<close>, any other decoded JSON value, or the raw string.
\<close>

datatype 'n payload = PRows "'n row list" | PGeneric "'n jv" | PText string

text \<open>
  \<^verbatim>\<open>json.Unmarshal(b, &arr)\<close> with \<^verbatim>\<open>arr []map[string]interface{}\<close>, in terms of the
  decoding of the same bytes into an \<^verbatim>\<open>interface{}\<close> (the parameter \<open>decode\<close>, \<open>None\<close>
  for invalid JSON): the call succeeds on \<^verbatim>\<open>null\<close>, leaving the nil slice, and on an
  array whose elements are objects or \<^verbatim>\<open>null\<close>, a \<^verbatim>\<open>null\<close> element leaving a nil map;
  on every other value it returns an error. A nil slice is an empty list here and a nil
  map an empty map, which is how \<^verbatim>\<open>len\<close>, \<^verbatim>\<open>range\<close> and indexing treat them.
\<close>

fun asRow :: "'n jv \<Rightarrow> 'n row option" where
  "asRow (JObj kvs) = Some kvs"
| "asRow JNull = Some []"
| "asRow _ = None"

fun unmarshalRows :: "'n jv \<Rightarrow> 'n row list option" where
  "unmarshalRows JNull = Some []"
| "unmarshalRows (JArr xs) = those (map asRow xs)"
| "unmarshalRows _ = None"

text \<open>
  \<^verbatim>\<open>func fetchQuery(apiBase, query string) (interface{}, string, string, error)\<close>. The
  parameters are \<^verbatim>\<open>url.QueryEscape\<close>, the request (\<^verbatim>\<open>http.Get\<close> and the reading of
  the body: the body or the error) and the JSON decoder.
\<close>

definition fetchQuery ::
  "(string \<Rightarrow> string) \<Rightarrow> (string \<Rightarrow> ioerr + string) \<Rightarrow> (string \<Rightarrow> 'n jv option) \<Rightarrow>
     string \<Rightarrow> string \<Rightarrow> ioerr + ('n payload \<times> string \<times> string)" where
  "fetchQuery queryEscape httpGet decode apiBase query =
     (let encoded = queryEscape query; full = apiBase @ encoded in
      case httpGet full of
        Inl err \<Rightarrow> Inl err
      | Inr b \<Rightarrow>
          (let raw = b in
           case Option.bind (decode b) unmarshalRows of
             Some arr \<Rightarrow> Inr (PRows arr, ''json'', raw)
           | None \<Rightarrow>
               (case decode b of
                  Some gen \<Rightarrow> Inr (PGeneric gen, ''json'', raw)
                | None \<Rightarrow> Inr (PText raw, ''text'', raw))))"

text \<open>The three shapes of the specification, read off the returned value.\<close>

datatype shape = TabularRows | ScalarStructured | Text

fun shapeOf :: "'n payload \<Rightarrow> shape" where
  "shapeOf (PRows arr) = TabularRows"
| "shapeOf (PGeneric gen) = ScalarStructured"
| "shapeOf (PText raw) = Text"

text \<open>
  The elements of a \<^verbatim>\<open>[]interface{}\<close> that are maps:
  \<^verbatim>\<open>if m, ok := item.(map[string]interface{}); ok { maps = append(maps, m) }\<close>.
\<close>

fun itemMaps :: "'n jv list \<Rightarrow> 'n row list" where
  "itemMaps [] = []"
| "itemMaps (JObj m # items) = m # itemMaps items"
| "itemMaps (item # items) = itemMaps items"

definition clearResults :: "'n session \<Rightarrow> 'n session" where
  "clearResults s = s\<lparr>table := [], currentData := [], currentRowCount := 0\<rparr>"

text \<open>
  The closure that \<^verbatim>\<open>runQuery\<close> queues on the event loop with the result of
  \<^verbatim>\<open>fetchQuery\<close>.
\<close>

definition applyResult ::
  "('n \<Rightarrow> string) \<Rightarrow> Config \<Rightarrow> 'n session \<Rightarrow> ioerr + ('n payload \<times> string \<times> string) \<Rightarrow>
     panic + 'n session" where
  "applyResult fmtFloat cfg s fetched =
     (case fetched of
        Inl err \<Rightarrow>
          Inr (s\<lparr>statusText := ''[red]Error: '' @ errText err,
                 rawText := ''Error: '' @ errText err\<rparr>)
      | Inr (res, kind, raw) \<Rightarrow>
          (let s = s\<lparr>rawText := raw\<rparr>;
               textResult = (clearResults s)\<lparr>detailText := ''[yellow]Text result (see raw output)'',
                                        statusText := ''[green]Text result''\<rparr>;
               other = (clearResults s)\<lparr>detailText := ''[yellow]JSON result (see raw output)'',
                                         statusText := ''[green]JSON result''\<rparr>;
               rows = (\<lambda>v. case renderJSONToTable fmtFloat v (currentColumns s) cfg of
                              Inl p \<Rightarrow> Inl p
                            | Inr (tbl, cols) \<Rightarrow>
                                (let s = s\<lparr>currentData := v, table := tbl, currentColumns := cols,
                                            currentRowCount := int (length v),
                                            tableTitle := ''Results ('' @ showInt (int (length v)) @ '' rows)''\<rparr>;
                                     s = (if 0 < currentRowCount s
                                          then updateDetailView fmtFloat (selectCell fmtFloat s 1 0)
                                          else s\<lparr>detailText := ''[yellow]No results''\<rparr>)
                                 in Inr (s\<lparr>statusText := ''[green]Fetched '' @ showInt (int (length v)) @ '' rows''\<rparr>)))
           in if kind = ''json''
              then (case res of
                      PRows v \<Rightarrow> rows v
                    | PGeneric (JArr v) \<Rightarrow>
                        (let maps = itemMaps v in
                         if 0 < length maps then rows maps
                         else Inr ((clearResults s)\<lparr>detailText := ''[yellow]JSON result (non-tabular)'',
                                                      statusText := ''[green]JSON result (non-tabular)''\<rparr>))
                    | _ \<Rightarrow> Inr other)
              else Inr textResult))"

section \<open>Stand-ins for the library parameters\<close>

text \<open>
  The properties below hold for every decoder, encoder and formatter. To run the model
  on concrete bodies and files, the parameters are instantiated with a decoder for a
  fragment of JSON (white space, \<^verbatim>\<open>null\<close>, \<^verbatim>\<open>true\<close>, \<^verbatim>\<open>false\<close>, integers, strings
  with the escapes of the quote and the backslash, arrays and objects), with numbers of
  type \<^typ>\<open>int\<close> printed in decimal, and with an encoder and decoder of histories in
  the layout of the history file.
\<close>

definition quoteChar :: char where
  "quoteChar = CHR 0x22"

definition backslash :: char where
  "backslash = CHR 0x5C"

definition jsonSpace :: "char \<Rightarrow> bool" where
  "jsonSpace c = (c \<in> set [CHR '' '', CHR 0x09, CHR 0x0A, CHR 0x0D])"

definition skipSpace :: "string \<Rightarrow> string" where
  "skipSpace s = dropWhile jsonSpace s"

definition isDigit :: "char \<Rightarrow> bool" where
  "isDigit c = ((48::nat) \<le> of_char c \<and> of_char c \<le> (57::nat))"

definition digitsValue :: "string \<Rightarrow> nat" where
  "digitsValue ds = foldl (\<lambda>n c. 10 * n + (of_char c - 48)) (0::nat) ds"

text \<open>The characters of a string literal after its opening quote, and the rest of the input.\<close>

fun parseString :: "string \<Rightarrow> (string \<times> string) option" where
  "parseString [] = None"
| "parseString [c] = (if c = quoteChar then Some ([], []) else None)"
| "parseString (c # d # cs) =
     (if c = quoteChar then Some ([], d # cs)
      else if c = backslash
      then (if d = quoteChar \<or> d = backslash
            then map_option (\<lambda>(str, r). (d # str, r)) (parseString cs)
            else None)
      else map_option (\<lambda>(str, r). (c # str, r)) (parseString (d # cs)))"

definition parseNumber :: "string \<Rightarrow> (int \<times> string) option" where
  "parseNumber s =
     (let neg = (s \<noteq> [] \<and> hd s = CHR ''-'');
          body = (if neg then tl s else s);
          ds = takeWhile isDigit body
      in if ds = [] then None
         else Some ((if neg then - int (digitsValue ds) else int (digitsValue ds)),
                    dropWhile isDigit body))"

definition stripPrefix :: "string \<Rightarrow> string \<Rightarrow> string option" where
  "stripPrefix pre s = (if take (length pre) s = pre then Some (drop (length pre) s) else None)"

text \<open>
  Recursive descent with a bound on the depth of the calls, which the length of the
  input never exceeds. An object keeps its members last first, so that of two members
  with the same key the later one is found, as in the library.
\<close>

fun parseValue :: "nat \<Rightarrow> string \<Rightarrow> (int jv \<times> string) option"
  and parseElements :: "nat \<Rightarrow> string \<Rightarrow> (int jv list \<times> string) option"
  and parseMembers :: "nat \<Rightarrow> string \<Rightarrow> ((string \<times> int jv) list \<times> string) option" where
  "parseValue 0 s = None"
| "parseValue (Suc n) s =
     (case skipSpace s of
        [] \<Rightarrow> None
      | c # cs \<Rightarrow>
          if c = CHR ''['' then
            (case skipSpace cs of
               [] \<Rightarrow> None
             | d # ds \<Rightarrow>
                 if d = CHR '']'' then Some (JArr [], ds)
                 else map_option (\<lambda>(vs, r). (JArr vs, r)) (parseElements n cs))
          else if c = CHR ''{'' then
            (case skipSpace cs of
               [] \<Rightarrow> None
             | d # ds \<Rightarrow>
                 if d = CHR ''}'' then Some (JObj [], ds)
                 else map_option (\<lambda>(kvs, r). (JObj (rev kvs), r)) (parseMembers n cs))
          else if c = quoteChar then map_option (\<lambda>(str, r). (JStr str, r)) (parseString cs)
          else if stripPrefix ''null'' (c # cs) \<noteq> None
          then Some (JNull, the (stripPrefix ''null'' (c # cs)))
          else if stripPrefix ''true'' (c # cs) \<noteq> None
          then Some (JBool True, the (stripPrefix ''true'' (c # cs)))
          else if stripPrefix ''false'' (c # cs) \<noteq> None
          then Some (JBool False, the (stripPrefix ''false'' (c # cs)))
          else map_option (\<lambda>(i, r). (JNum i, r)) (parseNumber (c # cs)))"
| "parseElements 0 s = None"
| "parseElements (Suc n) s =
     (case parseValue n s of
        None \<Rightarrow> None
      | Some (v, r) \<Rightarrow>
          (case skipSpace r of
             [] \<Rightarrow> None
           | c # cs \<Rightarrow>
               if c = CHR '','' then map_option (\<lambda>(vs, r'). (v # vs, r')) (parseElements n cs)
               else if c = CHR '']'' then Some ([v], cs)
               else None))"
| "parseMembers 0 s = None"
| "parseMembers (Suc n) s =
     (case skipSpace s of
        [] \<Rightarrow> None
      | q # qs \<Rightarrow>
          if q \<noteq> quoteChar then None
          else
            (case parseString qs of
               None \<Rightarrow> None
             | Some (k, r) \<Rightarrow>
                 (case skipSpace r of
                    [] \<Rightarrow> None
                  | c # cs \<Rightarrow>
                      if c \<noteq> CHR '':'' then None
                      else
                        (case parseValue n cs of
                           None \<Rightarrow> None
                         | Some (v, r') \<Rightarrow>
                             (case skipSpace r' of
                                [] \<Rightarrow> None
                              | e # es \<Rightarrow>
                                  if e = CHR '','' then
                                    map_option (\<lambda>(kvs, r''). ((k, v) # kvs, r'')) (parseMembers n es)
                                  else if e = CHR ''}'' then Some ([(k, v)], es)
                                  else None)))))"

definition jsonDecode :: "string \<Rightarrow> int jv option" where
  "jsonDecode s =
     (case parseValue (2 * length s + 2) s of
        None \<Rightarrow> None
      | Some (v, r) \<Rightarrow> if skipSpace r = [] then Some v else None)"

text \<open>The history file: \<^verbatim>\<open>{"entries":[{"query":"...","timestamp":...},...]}\<close>.\<close>

definition quoted :: "string \<Rightarrow> string" where
  "quoted str =
     [quoteChar] @ concat (map (\<lambda>c. if c = quoteChar \<or> c = backslash then [backslash, c] else [c]) str) @
     [quoteChar]"





text \<open>Two rows with different key sets, and a session that shows them with the second selected.\<close>

definition demoRows :: "int row list" where
  "demoRows = [[(''name'', JStr ''a very long customer name''), (''id'', JNum 7)],
               [(''id'', JNum 10), (''extra'', JBool True)]]"

definition demoSession :: "int session" where
  "demoSession =
     \<lparr>hist = emptyHistory, currentRowCount = 2, currentData = demoRows,
      currentColumns = [''id'', ''name''], sortColumn = - 1, sortAscending = True,
      table = [], tableTitle = [], selection = (2, 0), detailText = [], rawText = [],
      statusText = [], focus = Results\<rparr>"


text \<open>
  The number of characters of a string in UTF-8: every byte that is not a continuation
  byte (\<^verbatim>\<open>10xxxxxx\<close>) starts a character. The value \<open>wideValue\<close> is the letter a
  followed by 100 times the two-byte character U+00E9, and \<open>wideSession\<close> has one row
  with this value, selected.
\<close>

definition isContinuation :: "char \<Rightarrow> bool" where
  "isContinuation c = (128 \<le> (of_char c :: nat) \<and> (of_char c :: nat) < 192)"

definition utf8Length :: "string \<Rightarrow> nat" where
  "utf8Length s = length (filter (\<lambda>c. \<not> isContinuation c) s)"

definition wideValue :: string where
  "wideValue = CHR ''a'' # concat (replicate 100 [CHR 0xC3, CHR 0xA9])"

definition wideSession :: "int session" where
  "wideSession =
     \<lparr>hist = emptyHistory, currentRowCount = 1, currentData = [[(''v'', JStr wideValue)]],
      currentColumns = [''v''], sortColumn = - 1, sortAscending = True,
      table = [], tableTitle = [], selection = (1, 0), detailText = [], rawText = [],
      statusText = [], focus = Results\<rparr>"



text \<open>
  The bodies \<^verbatim>\<open>[{"a":1}]\<close>, \<^verbatim>\<open>[1,2,3]\<close> and \<^verbatim>\<open>not json\<close>, and a history of two
  entries.
\<close>

definition bodyRows :: string where
  "bodyRows = ''[{'' @ quoted ''a'' @ '':1}]''"

definition bodyScalars :: string where
  "bodyScalars = ''[1,2,3]''"

definition bodyText :: string where
  "bodyText = ''not json''"


section \<open>Properties\<close>

subsection \<open>truncateString\<close>

lemma length_ellipsis: "length ellipsis = 3"
  by (simp add: ellipsis_def)

text \<open>
  Claim C10. \<^verbatim>\<open>truncateString(s, maxLen)\<close> returns \<open>s\<close> unchanged when its byte length
  is at most \<open>maxLen\<close>. When \<open>s\<close> is longer and \<open>maxLen \<ge> 1\<close>, the result is the first
  \<open>maxLen - 1\<close> bytes of \<open>s\<close> followed by the three-byte ellipsis, so its byte length is
  \<open>maxLen + 2\<close>, more than \<open>maxLen\<close>. When \<open>s\<close> is longer and \<open>maxLen < 1\<close> (for instance
  \<open>maxLen = 0\<close> and a non-empty \<open>s\<close>) the slice bound is out of range and the call
  panics. The kept prefix is cut at a byte offset and may split a multi-byte character:
  of the two bytes C3 A9 (U+00E9) followed by \<open>ab\<close>, with \<open>maxLen = 2\<close>, only the lead byte
  C3 is kept.
\<close>

theorem truncateString_spec:
  "(int (length s) \<le> maxLen \<longrightarrow> truncateString s maxLen = Inr s) \<and>
   (maxLen < int (length s) \<and> 1 \<le> maxLen \<longrightarrow>
      truncateString s maxLen = Inr (take (nat (maxLen - 1)) s @ ellipsis) \<and>
      int (length (take (nat (maxLen - 1)) s @ ellipsis)) = maxLen + 2) \<and>
   (maxLen < int (length s) \<and> maxLen < 1 \<longrightarrow>
      truncateString s maxLen = Inl SliceBoundsOutOfRange) \<and>
   (s \<noteq> [] \<longrightarrow> truncateString s 0 = Inl SliceBoundsOutOfRange) \<and>
   length ellipsis = 3 \<and>
   truncateString [CHR 0xC3, CHR 0xA9, CHR ''a'', CHR ''b''] 2 = Inr (CHR 0xC3 # ellipsis)"
  by (auto simp: truncateString_def slice_to_def length_ellipsis)

theorem truncateString_spec_witness:
  "truncateString ''abc'' 5 = Inr ''abc'' \<and>
   truncateString ''abcdef'' 4 = Inr (''abc'' @ ellipsis) \<and>
   length (''abc'' @ ellipsis) = 6 \<and>
   truncateString ''abcdef'' (- 2) = Inl SliceBoundsOutOfRange \<and>
   truncateString ''a'' 0 = Inl SliceBoundsOutOfRange"
  using truncateString_spec [of "''abc''" 5] truncateString_spec [of "''abcdef''" 4]
    truncateString_spec [of "''abcdef''" "- 2"] truncateString_spec [of "''a''" 0]
  by (simp add: length_ellipsis)

subsection \<open>appendHistory and the history invariants\<close>

lemma entry_update_eq: "(e::HistoryEntry)\<lparr>Timestamp := t\<rparr> = \<lparr>Query = Query e, Timestamp = t\<rparr>"
  by (cases e) simp

lemma appendHistory_total:
  "0 \<le> maxLen \<Longrightarrow> \<exists>h'. appendHistory trimSpace now h query maxLen = Inr h'"
  by (auto simp: appendHistory_def slice_to_def Let_def)

lemma appendHistory_empty_query:
  "trimSpace query = [] \<Longrightarrow> appendHistory trimSpace now h query maxLen = Inr h"
  by (simp add: appendHistory_def)

lemma appendHistory_refresh:
  "trimSpace query \<noteq> [] \<Longrightarrow> Entries h = e # es \<Longrightarrow> Query e = trimSpace query \<Longrightarrow>
   appendHistory trimSpace now h query maxLen =
     Inr (h\<lparr>Entries := \<lparr>Query = trimSpace query, Timestamp = now\<rparr> # es\<rparr>)"
  by (cases e) (simp add: appendHistory_def)

lemma appendHistory_prepend:
  "trimSpace query \<noteq> [] \<Longrightarrow> Entries h = [] \<or> Query (hd (Entries h)) \<noteq> trimSpace query \<Longrightarrow>
   0 \<le> maxLen \<Longrightarrow>
   appendHistory trimSpace now h query maxLen =
     Inr (h\<lparr>Entries := take (nat maxLen) (\<lparr>Query = trimSpace query, Timestamp = now\<rparr> # Entries h)\<rparr>)"
  by (auto simp: appendHistory_def slice_to_def Let_def)

lemma appendHistory_negative:
  "trimSpace query \<noteq> [] \<Longrightarrow> Entries h = [] \<or> Query (hd (Entries h)) \<noteq> trimSpace query \<Longrightarrow>
   maxLen < 0 \<Longrightarrow> appendHistory trimSpace now h query maxLen = Inl SliceBoundsOutOfRange"
  by (auto simp: appendHistory_def slice_to_def Let_def)

lemma appendHistory_head:
  assumes "trimSpace query \<noteq> []" "1 \<le> maxLen"
  shows "\<exists>h1 es. appendHistory trimSpace now h query maxLen = Inr h1 \<and>
           Entries h1 = \<lparr>Query = trimSpace query, Timestamp = now\<rparr> # es \<and>
           (es = tl (Entries h) \<and> Entries h \<noteq> [] \<and> Query (hd (Entries h)) = trimSpace query
            \<or> es = take (nat maxLen - 1) (Entries h) \<and> (Entries h = [] \<or> Query (hd (Entries h)) \<noteq> trimSpace query))"
proof (cases "Entries h \<noteq> [] \<and> Query (hd (Entries h)) = trimSpace query")
  case True
  then obtain e es where "Entries h = e # es" "Query e = trimSpace query"
    by (cases "Entries h") auto
  with assms show ?thesis
    by (simp add: appendHistory_refresh)
next
  case False
  then have d: "Entries h = [] \<or> Query (hd (Entries h)) \<noteq> trimSpace query" by blast
  from assms have "take (nat maxLen) (\<lparr>Query = trimSpace query, Timestamp = now\<rparr> # Entries h)
      = \<lparr>Query = trimSpace query, Timestamp = now\<rparr> # take (nat maxLen - 1) (Entries h)"
    by (cases "nat maxLen") auto
  with assms d show ?thesis
    by (simp add: appendHistory_prepend)
qed

lemma append_twice:
  assumes "trimSpace query \<noteq> []" "1 \<le> maxLen"
  shows "\<exists>h1 es. appendHistory trimSpace t1 h query maxLen = Inr h1 \<and>
           Entries h1 = \<lparr>Query = trimSpace query, Timestamp = t1\<rparr> # es \<and>
           appendHistory trimSpace t2 h1 query maxLen =
             Inr (h1\<lparr>Entries := \<lparr>Query = trimSpace query, Timestamp = t2\<rparr> # es\<rparr>)"
proof -
  from appendHistory_head [of trimSpace query maxLen t1 h] assms
  obtain h1 es where h1: "appendHistory trimSpace t1 h query maxLen = Inr h1"
      "Entries h1 = \<lparr>Query = trimSpace query, Timestamp = t1\<rparr> # es"
    by blast
  from assms(1) h1(2) have "appendHistory trimSpace t2 h1 query maxLen =
        Inr (h1\<lparr>Entries := \<lparr>Query = trimSpace query, Timestamp = t2\<rparr> # es\<rparr>)"
    by (intro appendHistory_refresh) auto
  with h1 show ?thesis by blast
qed

lemma append_alternating:
  assumes "trimSpace a \<noteq> []" "trimSpace b \<noteq> []" "trimSpace a \<noteq> trimSpace b" "1 \<le> maxLen"
  shows "\<exists>h1 h2. appendHistory trimSpace t1 h a maxLen = Inr h1 \<and>
           appendHistory trimSpace t2 h1 b maxLen = Inr h2 \<and>
           appendHistory trimSpace t3 h2 a maxLen =
             Inr (h2\<lparr>Entries := take (nat maxLen)
                   (\<lparr>Query = trimSpace a, Timestamp = t3\<rparr> #
                    \<lparr>Query = trimSpace b, Timestamp = t2\<rparr> # Entries h1)\<rparr>) \<and>
           hd (Entries h1) = \<lparr>Query = trimSpace a, Timestamp = t1\<rparr> \<and> Entries h1 \<noteq> []"
proof -
  from appendHistory_head [of trimSpace a maxLen t1 h] assms
  obtain h1 es where h1: "appendHistory trimSpace t1 h a maxLen = Inr h1"
      "Entries h1 = \<lparr>Query = trimSpace a, Timestamp = t1\<rparr> # es"
    by blast
  from assms h1(2) have h2: "appendHistory trimSpace t2 h1 b maxLen =
      Inr (h1\<lparr>Entries := take (nat maxLen) (\<lparr>Query = trimSpace b, Timestamp = t2\<rparr> # Entries h1)\<rparr>)"
    by (intro appendHistory_prepend) auto
  define h2 where "h2 = h1\<lparr>Entries := take (nat maxLen) (\<lparr>Query = trimSpace b, Timestamp = t2\<rparr> # Entries h1)\<rparr>"
  from assms(4) have hd2: "Entries h2 = \<lparr>Query = trimSpace b, Timestamp = t2\<rparr> # take (nat maxLen - 1) (Entries h1)"
    by (cases "nat maxLen") (auto simp: h2_def)
  from assms hd2 have "appendHistory trimSpace t3 h2 a maxLen =
      Inr (h2\<lparr>Entries := take (nat maxLen) (\<lparr>Query = trimSpace a, Timestamp = t3\<rparr> # Entries h2)\<rparr>)"
    by (intro appendHistory_prepend) auto
  moreover have "take (nat maxLen) (\<lparr>Query = trimSpace a, Timestamp = t3\<rparr> # Entries h2)
      = take (nat maxLen) (\<lparr>Query = trimSpace a, Timestamp = t3\<rparr> # \<lparr>Query = trimSpace b, Timestamp = t2\<rparr> # Entries h1)"
    using assms(4) by (cases "nat maxLen") (auto simp: hd2 take_Cons split: nat.splits)
  ultimately show ?thesis using h1 h2 by (auto simp: h2_def)
qed

lemma histRun_append:
  "histRun trimSpace maxLen h (ops @ ops') =
     (case histRun trimSpace maxLen h ops of Inl p \<Rightarrow> Inl p | Inr h' \<Rightarrow> histRun trimSpace maxLen h' ops')"
  by (induction ops arbitrary: h) (auto split: sum.splits)

lemma take_Cons_take: "take n (x # take n xs) = take n (x # xs)"
  by (cases n) simp_all

lemma append_run_distinct:
  assumes "0 \<le> maxLen" "\<forall>q \<in> set (map fst qs). trimSpace q \<noteq> []"
      "distinct_adj (map (\<lambda>(q, t). trimSpace q) qs)"
  shows "histRun trimSpace maxLen emptyHistory (mkOps qs) =
           Inr \<lparr>Entries = take (nat maxLen) (rev (mkEntries trimSpace qs))\<rparr>"
  using assms(2,3)
proof (induction qs rule: rev_induct)
  case Nil
  then show ?case by (simp add: mkOps_def mkEntries_def emptyHistory_def)
next
  case (snoc x xs)
  obtain q t where x: "x = (q, t)" by (cases x)
  let ?h = "\<lparr>Entries = take (nat maxLen) (rev (mkEntries trimSpace xs))\<rparr>"
  from snoc have run: "histRun trimSpace maxLen emptyHistory (mkOps xs) = Inr ?h"
    by (auto simp: distinct_adj_append_iff)
  from snoc.prems x have ne: "trimSpace q \<noteq> []" by auto
  have hdne: "Entries ?h = [] \<or> Query (hd (Entries ?h)) \<noteq> trimSpace q"
  proof (cases "xs = [] \<or> nat maxLen = 0")
    case True
    then show ?thesis by (auto simp: mkEntries_def)
  next
    case False
    then have "hd (take (nat maxLen) (rev (mkEntries trimSpace xs))) = last (mkEntries trimSpace xs)"
      by (simp add: hd_rev mkEntries_def)
    moreover from False have "Query (last (mkEntries trimSpace xs)) = last (map (\<lambda>(q, t). trimSpace q) xs)"
      by (simp add: mkEntries_def last_map split_beta)
    moreover from snoc.prems(2) x False have "last (map (\<lambda>(q, t). trimSpace q) xs) \<noteq> trimSpace q"
      by (auto simp: distinct_adj_append_iff)
    ultimately show ?thesis by simp
  qed
  from appendHistory_prepend [of trimSpace q ?h maxLen t, OF ne hdne assms(1)]
  have "appendHistory trimSpace t ?h q maxLen =
      Inr \<lparr>Entries = take (nat maxLen) (\<lparr>Query = trimSpace q, Timestamp = t\<rparr> # rev (mkEntries trimSpace xs))\<rparr>"
    by (simp add: take_Cons_take)
  with run x show ?case
    by (simp add: mkOps_def histRun_append mkEntries_def)
qed

lemma appendHistory_length:
  assumes "appendHistory trimSpace now h query maxLen = Inr h'" "int (length (Entries h)) \<le> maxLen"
  shows "int (length (Entries h')) \<le> maxLen"
  using assms by (auto simp: appendHistory_def slice_to_def Let_def split: if_splits)

lemma deleteEntry_length: "length (Entries (deleteEntry h i)) \<le> length (Entries h)"
  by (auto simp: deleteEntry_def min_def)

lemma deleteEntry_valid:
  "0 \<le> i \<Longrightarrow> i < int (length (Entries h)) \<Longrightarrow>
   Entries (deleteEntry h i) = take (nat i) (Entries h) @ drop (Suc (nat i)) (Entries h) \<and>
   length (Entries (deleteEntry h i)) + 1 = length (Entries h)"
  by (auto simp: deleteEntry_def)

lemma histRun_length:
  "histRun trimSpace maxLen h ops = Inr h' \<Longrightarrow> int (length (Entries h)) \<le> maxLen \<Longrightarrow>
   int (length (Entries h')) \<le> maxLen"
proof (induction ops arbitrary: h)
  case Nil
  then show ?case by simp
next
  case (Cons op ops)
  then obtain h1 where s: "histStep trimSpace maxLen h op = Inr h1"
      and r: "histRun trimSpace maxLen h1 ops = Inr h'"
    by (auto split: sum.splits)
  have "int (length (Entries h1)) \<le> maxLen"
  proof (cases op)
    case (OpAppend q t)
    with s Cons.prems(2) show ?thesis by (auto dest: appendHistory_length)
  next
    case (OpDelete i)
    with s Cons.prems(2) deleteEntry_length [of h i] show ?thesis by auto
  qed
  with Cons.IH r show ?case by blast
qed

lemma histRun_total:
  "0 \<le> maxLen \<Longrightarrow> \<exists>h'. histRun trimSpace maxLen h ops = Inr h'"
proof (induction ops arbitrary: h)
  case Nil
  then show ?case by simp
next
  case (Cons op ops)
  have "\<exists>h1. histStep trimSpace maxLen h op = Inr h1"
  proof (cases op)
    case (OpAppend q t)
    with Cons.prems appendHistory_total [of maxLen trimSpace t h q] show ?thesis by simp
  next
    case (OpDelete i)
    then show ?thesis by simp
  qed
  then obtain h1 where "histStep trimSpace maxLen h op = Inr h1" by blast
  with Cons show ?case by simp
qed

lemma distinct_adj_take: "distinct_adj xs \<Longrightarrow> distinct_adj (take n xs)"
  by (metis append_take_drop_id distinct_adj_append_iff)

lemma appendHistory_distinct_adj:
  assumes "appendHistory trimSpace now h query maxLen = Inr h'" "distinct_adj (queries h)"
  shows "distinct_adj (queries h')"
proof (cases "trimSpace query = []")
  case True
  with assms show ?thesis by (simp add: appendHistory_def)
next
  case ne: False
  show ?thesis
  proof (cases "Entries h \<noteq> [] \<and> Query (hd (Entries h)) = trimSpace query")
    case True
    then obtain e es where e: "Entries h = e # es" "Query e = trimSpace query"
      by (cases "Entries h") auto
    with assms ne show ?thesis
      by (auto simp: appendHistory_refresh queries_def)
  next
    case False
    then have d: "Entries h = [] \<or> Query (hd (Entries h)) \<noteq> trimSpace query" by blast
    have "0 \<le> maxLen"
    proof (rule ccontr)
      assume "\<not> 0 \<le> maxLen"
      with ne d assms(1) show False by (simp add: appendHistory_negative)
    qed
    with ne d assms(1) have "Entries h' = take (nat maxLen) (\<lparr>Query = trimSpace query, Timestamp = now\<rparr> # Entries h)"
      by (auto simp: appendHistory_prepend)
    then have "queries h' = take (nat maxLen) (map Query (\<lparr>Query = trimSpace query, Timestamp = now\<rparr> # Entries h))"
      unfolding queries_def by (simp only: take_map)
    then have "queries h' = take (nat maxLen) (trimSpace query # queries h)"
      by (simp add: queries_def)
    moreover from False assms(2) have "distinct_adj (trimSpace query # queries h)"
      by (cases "Entries h") (auto simp: queries_def)
    ultimately show ?thesis by (auto simp: distinct_adj_take)
  qed
qed

lemma histRun_appends_distinct_adj:
  "histRun trimSpace maxLen h ops = Inr h' \<Longrightarrow> \<forall>op \<in> set ops. isAppend op \<Longrightarrow>
   distinct_adj (queries h) \<Longrightarrow> distinct_adj (queries h')"
proof (induction ops arbitrary: h)
  case Nil
  then show ?case by simp
next
  case (Cons op ops)
  then obtain h1 where s: "histStep trimSpace maxLen h op = Inr h1"
      and r: "histRun trimSpace maxLen h1 ops = Inr h'"
    by (auto split: sum.splits)
  from Cons.prems(2) obtain q t where "op = OpAppend q t" by (cases op) auto
  with s Cons.prems(3) have "distinct_adj (queries h1)"
    by (auto dest: appendHistory_distinct_adj)
  with Cons.IH r Cons.prems(2) show ?case by simp
qed

lemma distinct_adj_delete:
  assumes "distinct_adj xs"
      "\<not> (0 < n \<and> Suc n < length xs \<and> xs ! (n - 1) = xs ! Suc n)"
  shows "distinct_adj (take n xs @ drop (Suc n) xs)"
proof (cases "n = 0 \<or> length xs \<le> Suc n")
  case True
  then show ?thesis
  proof
    assume "n = 0"
    with assms(1) show ?thesis by (cases xs) (auto simp: distinct_adj_Cons)
  next
    assume "length xs \<le> Suc n"
    with assms(1) show ?thesis by (simp add: distinct_adj_take)
  qed
next
  case False
  then have n: "0 < n" "Suc n < length xs" by auto
  with assms(2) have neq: "xs ! (n - 1) \<noteq> xs ! Suc n" by simp
  from n have tne: "take n xs \<noteq> []" by auto
  from n have "length (take n xs) = n" by simp
  with tne have "last (take n xs) = take n xs ! (n - 1)"
    by (simp add: last_conv_nth)
  with n have t: "take n xs \<noteq> []" "last (take n xs) = xs ! (n - 1)"
    using tne by simp_all
  from n have d: "drop (Suc n) xs \<noteq> []" "hd (drop (Suc n) xs) = xs ! Suc n"
    by (auto simp: hd_drop_conv_nth)
  have "distinct_adj (drop (Suc n) xs)"
    using assms(1) by (metis append_take_drop_id distinct_adj_append_iff)
  with assms(1) t d neq show ?thesis
    by (simp add: distinct_adj_append_iff distinct_adj_take)
qed

lemma deleteEntry_distinct_adj:
  assumes "distinct_adj (queries h)"
    "\<not> (0 < i \<and> i + 1 < int (length (Entries h)) \<and> queries h ! nat (i - 1) = queries h ! nat (i + 1))"
  shows "distinct_adj (queries (deleteEntry h i))"
proof (cases "0 \<le> i \<and> i < int (length (Entries h))")
  case False
  with assms(1) show ?thesis by (auto simp: deleteEntry_def)
next
  case True
  then have q: "queries (deleteEntry h i) = take (nat i) (queries h) @ drop (Suc (nat i)) (queries h)"
    by (simp add: deleteEntry_def queries_def take_map drop_map)
  have "\<not> (0 < nat i \<and> Suc (nat i) < length (queries h) \<and> queries h ! (nat i - 1) = queries h ! Suc (nat i))"
  proof
    assume a: "0 < nat i \<and> Suc (nat i) < length (queries h) \<and> queries h ! (nat i - 1) = queries h ! Suc (nat i)"
    then have "nat (i - 1) = nat i - 1" "nat (i + 1) = Suc (nat i)" by auto
    with a assms(2) show False by (auto simp: queries_def)
  qed
  with assms(1) q show ?thesis by (simp add: distinct_adj_delete)
qed


lemma distinct_imp_distinct_adj: "distinct xs \<Longrightarrow> distinct_adj xs"
  by (induction xs) (auto simp: distinct_adj_Cons)

lemma append_twice_empty:
  assumes "trimSpace query \<noteq> []" "1 \<le> maxLen"
  shows "histRun trimSpace maxLen emptyHistory [OpAppend query t1, OpAppend query t2] =
           Inr \<lparr>Entries = [\<lparr>Query = trimSpace query, Timestamp = t2\<rparr>]\<rparr>"
proof -
  from assms have "appendHistory trimSpace t1 emptyHistory query maxLen =
      Inr \<lparr>Entries = [\<lparr>Query = trimSpace query, Timestamp = t1\<rparr>]\<rparr>"
    by (simp add: appendHistory_def emptyHistory_def)
  moreover from assms(1) have "appendHistory trimSpace t2 \<lparr>Entries = [\<lparr>Query = trimSpace query, Timestamp = t1\<rparr>]\<rparr> query maxLen =
      Inr \<lparr>Entries = [\<lparr>Query = trimSpace query, Timestamp = t2\<rparr>]\<rparr>"
    by (simp add: appendHistory_def)
  ultimately show ?thesis by simp
qed

lemma append_alternating_empty:
  assumes "trimSpace a \<noteq> []" "trimSpace b \<noteq> []" "trimSpace a \<noteq> trimSpace b" "3 \<le> maxLen"
  shows "histRun trimSpace maxLen emptyHistory [OpAppend a t1, OpAppend b t2, OpAppend a t3] =
           Inr \<lparr>Entries = [\<lparr>Query = trimSpace a, Timestamp = t3\<rparr>,
                            \<lparr>Query = trimSpace b, Timestamp = t2\<rparr>,
                            \<lparr>Query = trimSpace a, Timestamp = t1\<rparr>]\<rparr>"
  using assms by (simp add: appendHistory_def emptyHistory_def Let_def slice_to_def)

lemma append_alternating_three:
  assumes "trimSpace a \<noteq> []" "trimSpace b \<noteq> []" "trimSpace a \<noteq> trimSpace b" "3 \<le> maxLen"
  shows "\<exists>h1 h2 h3 rest. appendHistory trimSpace t1 h a maxLen = Inr h1 \<and>
           appendHistory trimSpace t2 h1 b maxLen = Inr h2 \<and>
           appendHistory trimSpace t3 h2 a maxLen = Inr h3 \<and>
           Entries h3 = \<lparr>Query = trimSpace a, Timestamp = t3\<rparr> #
                        \<lparr>Query = trimSpace b, Timestamp = t2\<rparr> #
                        \<lparr>Query = trimSpace a, Timestamp = t1\<rparr> # rest"
proof -
  from assms(4) have m: "1 \<le> maxLen" by simp
  from append_alternating [of trimSpace a b maxLen t1 h t2 t3] assms(1-3) m
  obtain h1 h2 where c: "appendHistory trimSpace t1 h a maxLen = Inr h1"
      "appendHistory trimSpace t2 h1 b maxLen = Inr h2"
      "appendHistory trimSpace t3 h2 a maxLen =
             Inr (h2\<lparr>Entries := take (nat maxLen)
                   (\<lparr>Query = trimSpace a, Timestamp = t3\<rparr> #
                    \<lparr>Query = trimSpace b, Timestamp = t2\<rparr> # Entries h1)\<rparr>)"
      "hd (Entries h1) = \<lparr>Query = trimSpace a, Timestamp = t1\<rparr>" "Entries h1 \<noteq> []"
    by blast
  from c(4,5) obtain es where es: "Entries h1 = \<lparr>Query = trimSpace a, Timestamp = t1\<rparr> # es"
    by (cases "Entries h1") auto
  define k where "k = nat maxLen - 3"
  from assms(4) have k: "nat maxLen = Suc (Suc (Suc k))"
    unfolding k_def by linarith
  have "Entries (h2\<lparr>Entries := take (nat maxLen)
                   (\<lparr>Query = trimSpace a, Timestamp = t3\<rparr> #
                    \<lparr>Query = trimSpace b, Timestamp = t2\<rparr> # Entries h1)\<rparr>) =
        \<lparr>Query = trimSpace a, Timestamp = t3\<rparr> # \<lparr>Query = trimSpace b, Timestamp = t2\<rparr> #
        \<lparr>Query = trimSpace a, Timestamp = t1\<rparr> # take k es"
    by (simp add: es k)
  with c(1-3) show ?thesis by blast
qed

text \<open>
  Claim C2, as amended. With \<open>q\<close> the trimmed query: (1) when \<open>q\<close> is empty
  \<^verbatim>\<open>appendHistory\<close> changes nothing; (2) when the entry at position 0 has the query
  \<open>q\<close>, only the timestamp of that entry is replaced by the current time, whatever the
  rest of the list holds; (3) otherwise, for \<open>maxLen \<ge> 0\<close>, the new entry is put in
  front and the list is cut to its first \<open>maxLen\<close> entries, whether or not \<open>q\<close> occurs
  further down; (4) for \<open>maxLen \<ge> 1\<close>, appending the same query twice in succession to any
  history gives what the first append gave with the head's timestamp replaced by the
  second instant, and from the empty history exactly one entry; (5) appending \<open>a\<close>,
  \<open>b\<close>, \<open>a\<close>, non-empty and different after trimming, to any history gives for
  \<open>maxLen \<ge> 1\<close> the first \<open>maxLen\<close> entries of: \<open>a\<close> at the third instant, \<open>b\<close>, then
  what the first append gave; so for \<open>maxLen \<ge> 3\<close> the result starts with two separate
  entries for \<open>a\<close> around the one for \<open>b\<close>, and from the empty history it is exactly
  these three entries; (6) for \<open>maxLen \<ge> 0\<close>, appending queries that are non-empty and
  pairwise distinct after trimming to the empty history leaves the \<open>maxLen\<close> most recent
  ones, most recent first, so \<open>maxLen + 5\<close> of them leave exactly \<open>maxLen\<close> entries.
\<close>

theorem appendHistory_spec:
  "(trimSpace query = [] \<longrightarrow> appendHistory trimSpace now h query maxLen = Inr h) \<and>
   (trimSpace query \<noteq> [] \<and> Entries h = e # es \<and> Query e = trimSpace query \<longrightarrow>
      appendHistory trimSpace now h query maxLen =
        Inr (h\<lparr>Entries := \<lparr>Query = trimSpace query, Timestamp = now\<rparr> # es\<rparr>)) \<and>
   (trimSpace query \<noteq> [] \<and> (Entries h = [] \<or> Query (hd (Entries h)) \<noteq> trimSpace query) \<and>
    0 \<le> maxLen \<longrightarrow>
      appendHistory trimSpace now h query maxLen =
        Inr (h\<lparr>Entries :=
               take (nat maxLen) (\<lparr>Query = trimSpace query, Timestamp = now\<rparr> # Entries h)\<rparr>)) \<and>
   (trimSpace query \<noteq> [] \<and> 1 \<le> maxLen \<longrightarrow>
      (\<exists>h1 rest. appendHistory trimSpace t1 h query maxLen = Inr h1 \<and>
         Entries h1 = \<lparr>Query = trimSpace query, Timestamp = t1\<rparr> # rest \<and>
         appendHistory trimSpace t2 h1 query maxLen =
           Inr (h1\<lparr>Entries := \<lparr>Query = trimSpace query, Timestamp = t2\<rparr> # rest\<rparr>)) \<and>
      histRun trimSpace maxLen emptyHistory [OpAppend query t1, OpAppend query t2] =
        Inr \<lparr>Entries = [\<lparr>Query = trimSpace query, Timestamp = t2\<rparr>]\<rparr>) \<and>
   (trimSpace a \<noteq> [] \<and> trimSpace b \<noteq> [] \<and> trimSpace a \<noteq> trimSpace b \<and> 1 \<le> maxLen \<longrightarrow>
      (\<exists>h1 h2. appendHistory trimSpace t1 h a maxLen = Inr h1 \<and>
         appendHistory trimSpace t2 h1 b maxLen = Inr h2 \<and>
         appendHistory trimSpace t3 h2 a maxLen =
           Inr (h2\<lparr>Entries := take (nat maxLen)
                  (\<lparr>Query = trimSpace a, Timestamp = t3\<rparr> #
                   \<lparr>Query = trimSpace b, Timestamp = t2\<rparr> # Entries h1)\<rparr>))) \<and>
   (trimSpace a \<noteq> [] \<and> trimSpace b \<noteq> [] \<and> trimSpace a \<noteq> trimSpace b \<and> 3 \<le> maxLen \<longrightarrow>
      histRun trimSpace maxLen emptyHistory [OpAppend a t1, OpAppend b t2, OpAppend a t3] =
        Inr \<lparr>Entries = [\<lparr>Query = trimSpace a, Timestamp = t3\<rparr>,
                         \<lparr>Query = trimSpace b, Timestamp = t2\<rparr>,
                         \<lparr>Query = trimSpace a, Timestamp = t1\<rparr>]\<rparr>) \<and>
   (trimSpace a \<noteq> [] \<and> trimSpace b \<noteq> [] \<and> trimSpace a \<noteq> trimSpace b \<and> 3 \<le> maxLen \<longrightarrow>
      (\<exists>h1 h2 h3 rest. appendHistory trimSpace t1 h a maxLen = Inr h1 \<and>
         appendHistory trimSpace t2 h1 b maxLen = Inr h2 \<and>
         appendHistory trimSpace t3 h2 a maxLen = Inr h3 \<and>
         Entries h3 = \<lparr>Query = trimSpace a, Timestamp = t3\<rparr> #
                      \<lparr>Query = trimSpace b, Timestamp = t2\<rparr> #
                      \<lparr>Query = trimSpace a, Timestamp = t1\<rparr> # rest)) \<and>
   (0 \<le> maxLen \<and> (\<forall>q \<in> set (map fst qs). trimSpace q \<noteq> []) \<and>
    distinct (map (\<lambda>(q, t). trimSpace q) qs) \<longrightarrow>
      histRun trimSpace maxLen emptyHistory (mkOps qs) =
        Inr \<lparr>Entries = take (nat maxLen) (rev (mkEntries trimSpace qs))\<rparr> \<and>
      (length qs = nat maxLen + 5 \<longrightarrow>
         length (take (nat maxLen) (rev (mkEntries trimSpace qs))) = nat maxLen))"
proof -
  have A: "trimSpace query = [] \<longrightarrow> appendHistory trimSpace now h query maxLen = Inr h"
    by (simp add: appendHistory_empty_query)
  have B: "trimSpace query \<noteq> [] \<and> Entries h = e # es \<and> Query e = trimSpace query \<longrightarrow>
      appendHistory trimSpace now h query maxLen =
        Inr (h\<lparr>Entries := \<lparr>Query = trimSpace query, Timestamp = now\<rparr> # es\<rparr>)"
    by (simp add: appendHistory_refresh)
  have C: "trimSpace query \<noteq> [] \<and> (Entries h = [] \<or> Query (hd (Entries h)) \<noteq> trimSpace query) \<and>
    0 \<le> maxLen \<longrightarrow>
      appendHistory trimSpace now h query maxLen =
        Inr (h\<lparr>Entries :=
               take (nat maxLen) (\<lparr>Query = trimSpace query, Timestamp = now\<rparr> # Entries h)\<rparr>)"
    using appendHistory_prepend [of trimSpace query h maxLen now] by blast
  have D: "trimSpace query \<noteq> [] \<and> 1 \<le> maxLen \<longrightarrow>
      (\<exists>h1 rest. appendHistory trimSpace t1 h query maxLen = Inr h1 \<and>
         Entries h1 = \<lparr>Query = trimSpace query, Timestamp = t1\<rparr> # rest \<and>
         appendHistory trimSpace t2 h1 query maxLen =
           Inr (h1\<lparr>Entries := \<lparr>Query = trimSpace query, Timestamp = t2\<rparr> # rest\<rparr>)) \<and>
      histRun trimSpace maxLen emptyHistory [OpAppend query t1, OpAppend query t2] =
        Inr \<lparr>Entries = [\<lparr>Query = trimSpace query, Timestamp = t2\<rparr>]\<rparr>"
    using append_twice [of trimSpace query maxLen t1 h t2]
      append_twice_empty [of trimSpace query maxLen t1 t2] by blast
  have E: "trimSpace a \<noteq> [] \<and> trimSpace b \<noteq> [] \<and> trimSpace a \<noteq> trimSpace b \<and> 1 \<le> maxLen \<longrightarrow>
      (\<exists>h1 h2. appendHistory trimSpace t1 h a maxLen = Inr h1 \<and>
         appendHistory trimSpace t2 h1 b maxLen = Inr h2 \<and>
         appendHistory trimSpace t3 h2 a maxLen =
           Inr (h2\<lparr>Entries := take (nat maxLen)
                  (\<lparr>Query = trimSpace a, Timestamp = t3\<rparr> #
                   \<lparr>Query = trimSpace b, Timestamp = t2\<rparr> # Entries h1)\<rparr>))"
    using append_alternating [of trimSpace a b maxLen t1 h t2 t3] by blast
  have F: "trimSpace a \<noteq> [] \<and> trimSpace b \<noteq> [] \<and> trimSpace a \<noteq> trimSpace b \<and> 3 \<le> maxLen \<longrightarrow>
      histRun trimSpace maxLen emptyHistory [OpAppend a t1, OpAppend b t2, OpAppend a t3] =
        Inr \<lparr>Entries = [\<lparr>Query = trimSpace a, Timestamp = t3\<rparr>,
                         \<lparr>Query = trimSpace b, Timestamp = t2\<rparr>,
                         \<lparr>Query = trimSpace a, Timestamp = t1\<rparr>]\<rparr>"
    using append_alternating_empty [of trimSpace a b maxLen t1 t2 t3] by blast
  have G: "0 \<le> maxLen \<and> (\<forall>q \<in> set (map fst qs). trimSpace q \<noteq> []) \<and>
    distinct (map (\<lambda>(q, t). trimSpace q) qs) \<longrightarrow>
      histRun trimSpace maxLen emptyHistory (mkOps qs) =
        Inr \<lparr>Entries = take (nat maxLen) (rev (mkEntries trimSpace qs))\<rparr> \<and>
      (length qs = nat maxLen + 5 \<longrightarrow>
         length (take (nat maxLen) (rev (mkEntries trimSpace qs))) = nat maxLen)"
    using append_run_distinct [of maxLen qs trimSpace]
      distinct_imp_distinct_adj [of "map (\<lambda>(q, t). trimSpace q) qs"]
    by (auto simp: mkEntries_def)
  have H: "trimSpace a \<noteq> [] \<and> trimSpace b \<noteq> [] \<and> trimSpace a \<noteq> trimSpace b \<and> 3 \<le> maxLen \<longrightarrow>
      (\<exists>h1 h2 h3 rest. appendHistory trimSpace t1 h a maxLen = Inr h1 \<and>
         appendHistory trimSpace t2 h1 b maxLen = Inr h2 \<and>
         appendHistory trimSpace t3 h2 a maxLen = Inr h3 \<and>
         Entries h3 = \<lparr>Query = trimSpace a, Timestamp = t3\<rparr> #
                      \<lparr>Query = trimSpace b, Timestamp = t2\<rparr> #
                      \<lparr>Query = trimSpace a, Timestamp = t1\<rparr> # rest)"
    using append_alternating_three [of trimSpace a b maxLen t1 h t2 t3] by blast
  from A B C D E F H G show ?thesis by blast
qed

theorem appendHistory_spec_witness:
  "appendHistory trimAscii 7 \<lparr>Entries = [\<lparr>Query = ''a'', Timestamp = 1\<rparr>]\<rparr> ''   '' 2 =
     Inr \<lparr>Entries = [\<lparr>Query = ''a'', Timestamp = 1\<rparr>]\<rparr> \<and>
   appendHistory trimAscii 7
       \<lparr>Entries = [\<lparr>Query = ''a'', Timestamp = 1\<rparr>, \<lparr>Query = ''b'', Timestamp = 0\<rparr>]\<rparr> '' a '' 2 =
     Inr \<lparr>Entries = [\<lparr>Query = ''a'', Timestamp = 7\<rparr>, \<lparr>Query = ''b'', Timestamp = 0\<rparr>]\<rparr> \<and>
   appendHistory trimAscii 7
       \<lparr>Entries = [\<lparr>Query = ''b'', Timestamp = 1\<rparr>, \<lparr>Query = ''a'', Timestamp = 0\<rparr>]\<rparr> '' a '' 2 =
     Inr \<lparr>Entries = [\<lparr>Query = ''a'', Timestamp = 7\<rparr>, \<lparr>Query = ''b'', Timestamp = 1\<rparr>]\<rparr> \<and>
   histRun trimAscii 2 emptyHistory [OpAppend ''a'' 1, OpAppend ''a'' 2] =
     Inr \<lparr>Entries = [\<lparr>Query = ''a'', Timestamp = 2\<rparr>]\<rparr> \<and>
   histRun trimAscii 3 emptyHistory [OpAppend ''a'' 1, OpAppend ''b'' 2, OpAppend ''a'' 3] =
     Inr \<lparr>Entries = [\<lparr>Query = ''a'', Timestamp = 3\<rparr>, \<lparr>Query = ''b'', Timestamp = 2\<rparr>,
                      \<lparr>Query = ''a'', Timestamp = 1\<rparr>]\<rparr> \<and>
   (\<exists>h1 h2 h3 rest.
      appendHistory trimAscii 1 \<lparr>Entries = [\<lparr>Query = ''c'', Timestamp = 0\<rparr>]\<rparr> ''a'' 3 = Inr h1 \<and>
      appendHistory trimAscii 2 h1 ''b'' 3 = Inr h2 \<and>
      appendHistory trimAscii 3 h2 ''a'' 3 = Inr h3 \<and>
      Entries h3 = \<lparr>Query = ''a'', Timestamp = 3\<rparr> # \<lparr>Query = ''b'', Timestamp = 2\<rparr> #
                   \<lparr>Query = ''a'', Timestamp = 1\<rparr> # rest) \<and>
   histRun trimAscii 2 emptyHistory
       (mkOps [(''a'', 1), (''b'', 2), (''c'', 3), (''d'', 4), (''e'', 5), (''f'', 6), (''g'', 7)]) =
     Inr \<lparr>Entries = [\<lparr>Query = ''g'', Timestamp = 7\<rparr>, \<lparr>Query = ''f'', Timestamp = 6\<rparr>]\<rparr>"
proof -
  have tr: "trimAscii ''   '' = []" "trimAscii '' a '' = ''a''" "trimAscii ''a'' = ''a''"
    "trimAscii ''b'' = ''b''" "trimAscii ''c'' = ''c''" "trimAscii ''d'' = ''d''"
    "trimAscii ''e'' = ''e''" "trimAscii ''f'' = ''f''" "trimAscii ''g'' = ''g''"
    by (simp_all add: trimAscii_def asciiSpace_def)
  note w1 = appendHistory_spec [where trimSpace = trimAscii and query = "''   ''" and now = 7
      and h = "\<lparr>Entries = [\<lparr>Query = ''a'', Timestamp = 1\<rparr>]\<rparr>" and maxLen = 2]
  note w2 = appendHistory_spec [where trimSpace = trimAscii and query = "'' a ''" and now = 7
      and h = "\<lparr>Entries = [\<lparr>Query = ''a'', Timestamp = 1\<rparr>, \<lparr>Query = ''b'', Timestamp = 0\<rparr>]\<rparr>"
      and e = "\<lparr>Query = ''a'', Timestamp = 1\<rparr>" and es = "[\<lparr>Query = ''b'', Timestamp = 0\<rparr>]"
      and maxLen = 2]
  note w3 = appendHistory_spec [where trimSpace = trimAscii and query = "'' a ''" and now = 7
      and h = "\<lparr>Entries = [\<lparr>Query = ''b'', Timestamp = 1\<rparr>, \<lparr>Query = ''a'', Timestamp = 0\<rparr>]\<rparr>"
      and maxLen = 2]
  note w4 = appendHistory_spec [where trimSpace = trimAscii and query = "''a''" and maxLen = 2
      and ?t1.0 = 1 and ?t2.0 = 2]
  note w5 = appendHistory_spec [where trimSpace = trimAscii and a = "''a''" and b = "''b''"
      and maxLen = 3 and ?t1.0 = 1 and ?t2.0 = 2 and ?t3.0 = 3]
  note w6 = appendHistory_spec [where trimSpace = trimAscii and maxLen = 2
      and qs = "[(''a'', 1), (''b'', 2), (''c'', 3), (''d'', 4), (''e'', 5), (''f'', 6), (''g'', 7)]"]
  note w7 = appendHistory_spec [where trimSpace = trimAscii and a = "''a''" and b = "''b''"
      and maxLen = 3 and ?t1.0 = 1 and ?t2.0 = 2 and ?t3.0 = 3
      and h = "\<lparr>Entries = [\<lparr>Query = ''c'', Timestamp = 0\<rparr>]\<rparr>"]
  from w1 have c1: "appendHistory trimAscii 7 \<lparr>Entries = [\<lparr>Query = ''a'', Timestamp = 1\<rparr>]\<rparr> ''   '' 2 =
     Inr \<lparr>Entries = [\<lparr>Query = ''a'', Timestamp = 1\<rparr>]\<rparr>"
    by (simp add: tr)
  from w2 have c2: "appendHistory trimAscii 7
       \<lparr>Entries = [\<lparr>Query = ''a'', Timestamp = 1\<rparr>, \<lparr>Query = ''b'', Timestamp = 0\<rparr>]\<rparr> '' a '' 2 =
     Inr \<lparr>Entries = [\<lparr>Query = ''a'', Timestamp = 7\<rparr>, \<lparr>Query = ''b'', Timestamp = 0\<rparr>]\<rparr>"
    by (simp add: tr)
  from w3 have c3: "appendHistory trimAscii 7
       \<lparr>Entries = [\<lparr>Query = ''b'', Timestamp = 1\<rparr>, \<lparr>Query = ''a'', Timestamp = 0\<rparr>]\<rparr> '' a '' 2 =
     Inr \<lparr>Entries = [\<lparr>Query = ''a'', Timestamp = 7\<rparr>, \<lparr>Query = ''b'', Timestamp = 1\<rparr>]\<rparr>"
    by (simp add: tr)
  from w4 have c4: "histRun trimAscii 2 emptyHistory [OpAppend ''a'' 1, OpAppend ''a'' 2] =
     Inr \<lparr>Entries = [\<lparr>Query = ''a'', Timestamp = 2\<rparr>]\<rparr>"
    by (simp add: tr)
  from w5 have c5: "histRun trimAscii 3 emptyHistory [OpAppend ''a'' 1, OpAppend ''b'' 2, OpAppend ''a'' 3] =
     Inr \<lparr>Entries = [\<lparr>Query = ''a'', Timestamp = 3\<rparr>, \<lparr>Query = ''b'', Timestamp = 2\<rparr>,
                      \<lparr>Query = ''a'', Timestamp = 1\<rparr>]\<rparr>"
    by (simp add: tr)
  from w6 have c6: "histRun trimAscii 2 emptyHistory
       (mkOps [(''a'', 1), (''b'', 2), (''c'', 3), (''d'', 4), (''e'', 5), (''f'', 6), (''g'', 7)]) =
     Inr \<lparr>Entries = [\<lparr>Query = ''g'', Timestamp = 7\<rparr>, \<lparr>Query = ''f'', Timestamp = 6\<rparr>]\<rparr>"
    by (simp add: tr mkEntries_def)
  have hyp7: "trimAscii ''a'' \<noteq> [] \<and> trimAscii ''b'' \<noteq> [] \<and> trimAscii ''a'' \<noteq> trimAscii ''b'' \<and>
      (3::int) \<le> 3"
    by (simp add: tr)
  from w7 hyp7 have "\<exists>h1 h2 h3 rest.
      appendHistory trimAscii 1 \<lparr>Entries = [\<lparr>Query = ''c'', Timestamp = 0\<rparr>]\<rparr> ''a'' 3 = Inr h1 \<and>
      appendHistory trimAscii 2 h1 ''b'' 3 = Inr h2 \<and>
      appendHistory trimAscii 3 h2 ''a'' 3 = Inr h3 \<and>
      Entries h3 = \<lparr>Query = trimAscii ''a'', Timestamp = 3\<rparr> #
                   \<lparr>Query = trimAscii ''b'', Timestamp = 2\<rparr> #
                   \<lparr>Query = trimAscii ''a'', Timestamp = 1\<rparr> # rest"
    by blast
  then have c7: "\<exists>h1 h2 h3 rest.
      appendHistory trimAscii 1 \<lparr>Entries = [\<lparr>Query = ''c'', Timestamp = 0\<rparr>]\<rparr> ''a'' 3 = Inr h1 \<and>
      appendHistory trimAscii 2 h1 ''b'' 3 = Inr h2 \<and>
      appendHistory trimAscii 3 h2 ''a'' 3 = Inr h3 \<and>
      Entries h3 = \<lparr>Query = ''a'', Timestamp = 3\<rparr> # \<lparr>Query = ''b'', Timestamp = 2\<rparr> #
                   \<lparr>Query = ''a'', Timestamp = 1\<rparr> # rest"
    by (simp only: tr)
  from c1 c2 c3 c4 c5 c6 c7 show ?thesis by blast
qed

text \<open>
  With \<open>maxLen = 0\<close> (the value of \<^verbatim>\<open>MaxHistoryEntries\<close> when the configuration file
  leaves the option out) the new entry is cut off at once: appending the same query twice
  to the empty history leaves no entry for it. With \<open>maxLen = 2\<close>, appending \<open>a\<close>, \<open>b\<close>,
  \<open>a\<close> leaves one entry for \<open>a\<close>, the first one having been cut off. Seven different
  query strings that are the same after trimming leave one entry, not \<open>maxLen = 2\<close>.
\<close>

theorem appendHistory_zero_capacity:
  "histRun trimAscii 0 emptyHistory [OpAppend ''select 1'' 1, OpAppend ''select 1'' 2] =
     Inr \<lparr>Entries = []\<rparr> \<and>
   histRun trimAscii 2 emptyHistory [OpAppend ''a'' 1, OpAppend ''b'' 2, OpAppend ''a'' 3] =
     Inr \<lparr>Entries = [\<lparr>Query = ''a'', Timestamp = 3\<rparr>, \<lparr>Query = ''b'', Timestamp = 2\<rparr>]\<rparr> \<and>
   distinct [''a'', '' a'', ''a '', '' a '', ''  a'', ''a  '', ''  a  ''] \<and>
   histRun trimAscii 2 emptyHistory
       (mkOps [(''a'', 1), ('' a'', 2), (''a '', 3), ('' a '', 4), (''  a'', 5), (''a  '', 6),
               (''  a  '', 7)]) =
     Inr \<lparr>Entries = [\<lparr>Query = ''a'', Timestamp = 7\<rparr>]\<rparr>"
  by (simp add: appendHistory_def emptyHistory_def trimAscii_def asciiSpace_def slice_to_def
      Let_def mkOps_def)

lemma distinct_adj_delete_between:
  assumes "0 < n" "Suc n < length xs" "xs ! (n - 1) = xs ! Suc n"
  shows "\<not> distinct_adj (take n xs @ drop (Suc n) xs)"
proof -
  from assms have tne: "take n xs \<noteq> []" by auto
  from assms have "length (take n xs) = n" by simp
  with tne have "last (take n xs) = take n xs ! (n - 1)"
    by (simp add: last_conv_nth)
  with assms have l: "last (take n xs) = xs ! (n - 1)" by simp
  from assms have d: "drop (Suc n) xs \<noteq> []" "hd (drop (Suc n) xs) = xs ! Suc n"
    by (auto simp: hd_drop_conv_nth)
  from tne l d assms(3) show ?thesis
    by (simp add: distinct_adj_append_iff)
qed

lemma deleteEntry_between:
  assumes "0 < i" "i + 1 < int (length (Entries h))"
    "queries h ! nat (i - 1) = queries h ! nat (i + 1)"
  shows "\<not> distinct_adj (queries (deleteEntry h i))"
proof -
  from assms(1,2) have q: "queries (deleteEntry h i) = take (nat i) (queries h) @ drop (Suc (nat i)) (queries h)"
    by (simp add: deleteEntry_def queries_def take_map drop_map)
  from assms(1) have n: "nat (i - 1) = nat i - 1" "nat (i + 1) = Suc (nat i)" by auto
  from assms have "0 < nat i" "Suc (nat i) < length (queries h)"
    "queries h ! (nat i - 1) = queries h ! Suc (nat i)"
    by (auto simp: n queries_def)
  then show ?thesis unfolding q by (rule distinct_adj_delete_between)
qed

text \<open>
  Claim C3, as amended. For \<open>maxLen \<ge> 0\<close> every sequence of appends and deletes runs to
  the end from the empty history, and the history it reaches has at most \<open>maxLen\<close>
  entries; the bound is preserved by every run from a history that satisfies it. No two
  consecutive entries have the same query in a history reached by appends alone, from
  the empty history or from one where this holds. A delete at a valid index \<open>i\<close> leaves
  the entries before \<open>i\<close> followed by the entries after \<open>i\<close>, in their order, one entry
  fewer; at any other index it changes nothing. So a delete never lengthens the history,
  and it preserves the absence of consecutive duplicates exactly when the removed entry
  does not lie between two entries with the same query: removing an entry that does
  makes the two neighbours.
\<close>

theorem history_invariants:
  "(0 \<le> maxLen \<longrightarrow>
      (\<exists>h'. histRun trimSpace maxLen emptyHistory ops = Inr h' \<and>
            int (length (Entries h')) \<le> maxLen)) \<and>
   (int (length (Entries h)) \<le> maxLen \<and> histRun trimSpace maxLen h ops = Inr h' \<longrightarrow>
      int (length (Entries h')) \<le> maxLen) \<and>
   ((\<forall>op \<in> set ops. isAppend op) \<and> distinct_adj (queries h) \<and>
    histRun trimSpace maxLen h ops = Inr h' \<longrightarrow> distinct_adj (queries h')) \<and>
   ((\<forall>op \<in> set ops. isAppend op) \<and> histRun trimSpace maxLen emptyHistory ops = Inr h' \<longrightarrow>
      distinct_adj (queries h')) \<and>
   (0 \<le> i \<and> i < int (length (Entries h)) \<longrightarrow>
      Entries (deleteEntry h i) = take (nat i) (Entries h) @ drop (Suc (nat i)) (Entries h) \<and>
      length (Entries (deleteEntry h i)) + 1 = length (Entries h)) \<and>
   (\<not> (0 \<le> i \<and> i < int (length (Entries h))) \<longrightarrow> deleteEntry h i = h) \<and>
   length (Entries (deleteEntry h i)) \<le> length (Entries h) \<and>
   (distinct_adj (queries h) \<and>
    \<not> (0 < i \<and> i + 1 < int (length (Entries h)) \<and>
       queries h ! nat (i - 1) = queries h ! nat (i + 1)) \<longrightarrow>
      distinct_adj (queries (deleteEntry h i))) \<and>
   (0 < i \<and> i + 1 < int (length (Entries h)) \<and>
    queries h ! nat (i - 1) = queries h ! nat (i + 1) \<longrightarrow>
      \<not> distinct_adj (queries (deleteEntry h i)))"
proof -
  have A: "0 \<le> maxLen \<longrightarrow>
      (\<exists>h'. histRun trimSpace maxLen emptyHistory ops = Inr h' \<and>
            int (length (Entries h')) \<le> maxLen)"
  proof
    assume m: "0 \<le> maxLen"
    then obtain h' where r: "histRun trimSpace maxLen emptyHistory ops = Inr h'"
      using histRun_total [of maxLen trimSpace emptyHistory ops] by blast
    with m have "int (length (Entries h')) \<le> maxLen"
      using histRun_length [of trimSpace maxLen emptyHistory ops h']
      by (simp add: emptyHistory_def)
    with r show "\<exists>h'. histRun trimSpace maxLen emptyHistory ops = Inr h' \<and>
            int (length (Entries h')) \<le> maxLen" by blast
  qed
  have B: "int (length (Entries h)) \<le> maxLen \<and> histRun trimSpace maxLen h ops = Inr h' \<longrightarrow>
      int (length (Entries h')) \<le> maxLen"
    using histRun_length [of trimSpace maxLen h ops h'] by blast
  have C: "(\<forall>op \<in> set ops. isAppend op) \<and> distinct_adj (queries h) \<and>
    histRun trimSpace maxLen h ops = Inr h' \<longrightarrow> distinct_adj (queries h')"
    using histRun_appends_distinct_adj [of trimSpace maxLen h ops h'] by blast
  have D: "(\<forall>op \<in> set ops. isAppend op) \<and> histRun trimSpace maxLen emptyHistory ops = Inr h' \<longrightarrow>
      distinct_adj (queries h')"
    using histRun_appends_distinct_adj [of trimSpace maxLen emptyHistory ops h']
    by (simp add: emptyHistory_def queries_def)
  have E: "length (Entries (deleteEntry h i)) \<le> length (Entries h)"
    by (rule deleteEntry_length)
  have F: "distinct_adj (queries h) \<and>
    \<not> (0 < i \<and> i + 1 < int (length (Entries h)) \<and>
       queries h ! nat (i - 1) = queries h ! nat (i + 1)) \<longrightarrow>
      distinct_adj (queries (deleteEntry h i))"
    using deleteEntry_distinct_adj [of h i] by blast
  have G: "0 < i \<and> i + 1 < int (length (Entries h)) \<and>
    queries h ! nat (i - 1) = queries h ! nat (i + 1) \<longrightarrow>
      \<not> distinct_adj (queries (deleteEntry h i))"
    using deleteEntry_between [of i h] by blast
  have H: "0 \<le> i \<and> i < int (length (Entries h)) \<longrightarrow>
      Entries (deleteEntry h i) = take (nat i) (Entries h) @ drop (Suc (nat i)) (Entries h) \<and>
      length (Entries (deleteEntry h i)) + 1 = length (Entries h)"
    using deleteEntry_valid [of i h] by blast
  have I: "\<not> (0 \<le> i \<and> i < int (length (Entries h))) \<longrightarrow> deleteEntry h i = h"
    by (simp add: deleteEntry_def)
  from A B C D H I E F G show ?thesis by blast
qed

theorem history_invariants_witness:
  "(\<exists>h'. histRun trimAscii 2 emptyHistory
            [OpAppend ''a'' 1, OpAppend ''b'' 2, OpDelete 0, OpAppend ''c'' 3, OpAppend ''a'' 4] = Inr h' \<and>
          int (length (Entries h')) \<le> 2) \<and>
   histRun trimAscii 3 emptyHistory [OpAppend ''a'' 1, OpAppend ''b'' 2, OpAppend ''a'' 3] =
     Inr \<lparr>Entries = [\<lparr>Query = ''a'', Timestamp = 3\<rparr>,
       \<lparr>Query = ''b'', Timestamp = 2\<rparr>, \<lparr>Query = ''a'', Timestamp = 1\<rparr>]\<rparr> \<and>
   int (length (Entries \<lparr>Entries = [\<lparr>Query = ''a'', Timestamp = 3\<rparr>,
       \<lparr>Query = ''b'', Timestamp = 2\<rparr>, \<lparr>Query = ''a'', Timestamp = 1\<rparr>]\<rparr>)) \<le> 3 \<and>
   distinct_adj (queries \<lparr>Entries = [\<lparr>Query = ''a'', Timestamp = 3\<rparr>,
       \<lparr>Query = ''b'', Timestamp = 2\<rparr>, \<lparr>Query = ''a'', Timestamp = 1\<rparr>]\<rparr>) \<and>
   histRun trimAscii 3 \<lparr>Entries = [\<lparr>Query = ''a'', Timestamp = 3\<rparr>,
       \<lparr>Query = ''b'', Timestamp = 2\<rparr>, \<lparr>Query = ''a'', Timestamp = 1\<rparr>]\<rparr> [OpAppend ''c'' 4] =
     Inr \<lparr>Entries = [\<lparr>Query = ''c'', Timestamp = 4\<rparr>,
       \<lparr>Query = ''a'', Timestamp = 3\<rparr>, \<lparr>Query = ''b'', Timestamp = 2\<rparr>]\<rparr> \<and>
   distinct_adj (queries \<lparr>Entries = [\<lparr>Query = ''c'', Timestamp = 4\<rparr>,
       \<lparr>Query = ''a'', Timestamp = 3\<rparr>, \<lparr>Query = ''b'', Timestamp = 2\<rparr>]\<rparr>) \<and>
   Entries (deleteEntry \<lparr>Entries = [\<lparr>Query = ''a'', Timestamp = 3\<rparr>,
       \<lparr>Query = ''b'', Timestamp = 2\<rparr>, \<lparr>Query = ''a'', Timestamp = 1\<rparr>]\<rparr> 0) =
     [\<lparr>Query = ''b'', Timestamp = 2\<rparr>, \<lparr>Query = ''a'', Timestamp = 1\<rparr>] \<and>
   Entries (deleteEntry \<lparr>Entries = [\<lparr>Query = ''a'', Timestamp = 3\<rparr>,
       \<lparr>Query = ''b'', Timestamp = 2\<rparr>, \<lparr>Query = ''a'', Timestamp = 1\<rparr>]\<rparr> 2) =
     [\<lparr>Query = ''a'', Timestamp = 3\<rparr>, \<lparr>Query = ''b'', Timestamp = 2\<rparr>] \<and>
   deleteEntry \<lparr>Entries = [\<lparr>Query = ''a'', Timestamp = 3\<rparr>,
       \<lparr>Query = ''b'', Timestamp = 2\<rparr>, \<lparr>Query = ''a'', Timestamp = 1\<rparr>]\<rparr> 3 =
     \<lparr>Entries = [\<lparr>Query = ''a'', Timestamp = 3\<rparr>,
       \<lparr>Query = ''b'', Timestamp = 2\<rparr>, \<lparr>Query = ''a'', Timestamp = 1\<rparr>]\<rparr> \<and>
   distinct_adj (queries (deleteEntry \<lparr>Entries = [\<lparr>Query = ''a'', Timestamp = 3\<rparr>,
       \<lparr>Query = ''b'', Timestamp = 2\<rparr>, \<lparr>Query = ''a'', Timestamp = 1\<rparr>]\<rparr> 0)) \<and>
   \<not> distinct_adj (queries (deleteEntry \<lparr>Entries = [\<lparr>Query = ''a'', Timestamp = 3\<rparr>,
       \<lparr>Query = ''b'', Timestamp = 2\<rparr>, \<lparr>Query = ''a'', Timestamp = 1\<rparr>]\<rparr> 1))"
proof -
  let ?h = "\<lparr>Entries = [\<lparr>Query = ''a'', Timestamp = 3\<rparr>,
       \<lparr>Query = ''b'', Timestamp = 2\<rparr>, \<lparr>Query = ''a'', Timestamp = 1\<rparr>]\<rparr>"
  let ?h' = "\<lparr>Entries = [\<lparr>Query = ''c'', Timestamp = 4\<rparr>,
       \<lparr>Query = ''a'', Timestamp = 3\<rparr>, \<lparr>Query = ''b'', Timestamp = 2\<rparr>]\<rparr>"
  have run: "histRun trimAscii 3 emptyHistory [OpAppend ''a'' 1, OpAppend ''b'' 2, OpAppend ''a'' 3] = Inr ?h"
    by (simp add: appendHistory_def emptyHistory_def trimAscii_def asciiSpace_def slice_to_def Let_def)
  have run': "histRun trimAscii 3 ?h [OpAppend ''c'' 4] = Inr ?h'"
    by (simp add: appendHistory_def trimAscii_def asciiSpace_def slice_to_def Let_def)
  have c1: "\<exists>h'. histRun trimAscii 2 emptyHistory
            [OpAppend ''a'' 1, OpAppend ''b'' 2, OpDelete 0, OpAppend ''c'' 3, OpAppend ''a'' 4] = Inr h' \<and>
          int (length (Entries h')) \<le> 2"
    using history_invariants [where maxLen = 2 and trimSpace = trimAscii
        and ops = "[OpAppend ''a'' 1, OpAppend ''b'' 2, OpDelete 0, OpAppend ''c'' 3, OpAppend ''a'' 4]"]
    by simp
  have c2: "int (length (Entries ?h)) \<le> 3"
    using history_invariants [where maxLen = 3 and trimSpace = trimAscii and h = emptyHistory and h' = ?h
        and ops = "[OpAppend ''a'' 1, OpAppend ''b'' 2, OpAppend ''a'' 3]"] run
    by (simp add: emptyHistory_def)
  have c3: "distinct_adj (queries ?h)"
    using history_invariants [where maxLen = 3 and trimSpace = trimAscii and h' = ?h
        and ops = "[OpAppend ''a'' 1, OpAppend ''b'' 2, OpAppend ''a'' 3]"] run
    by simp
  have c4: "distinct_adj (queries ?h')"
    using history_invariants [where maxLen = 3 and trimSpace = trimAscii and h = ?h and h' = ?h'
        and ops = "[OpAppend ''c'' 4]"] run' c3
    by simp
  have c5: "distinct_adj (queries (deleteEntry ?h 0))"
    using history_invariants [where h = ?h and i = 0] c3 by simp
  have c6: "\<not> distinct_adj (queries (deleteEntry ?h 1))"
    using history_invariants [where h = ?h and i = 1] by (simp add: queries_def)
  have c7: "Entries (deleteEntry ?h 0) =
      [\<lparr>Query = ''b'', Timestamp = 2\<rparr>, \<lparr>Query = ''a'', Timestamp = 1\<rparr>]"
    using history_invariants [where h = ?h and i = 0] by simp
  have c8: "Entries (deleteEntry ?h 2) =
      [\<lparr>Query = ''a'', Timestamp = 3\<rparr>, \<lparr>Query = ''b'', Timestamp = 2\<rparr>]"
    using history_invariants [where h = ?h and i = 2] by simp
  have c9: "deleteEntry ?h 3 = ?h"
    using history_invariants [where h = ?h and i = 3] by simp
  from c1 run c2 c3 run' c4 c7 c8 c9 c5 c6 show ?thesis by blast
qed

text \<open>
  Deleting the entry between two entries with the same query makes them neighbours: the
  history reached by three appends and one delete at the valid index 1 has two
  consecutive entries for the same query.
\<close>

theorem deleteEntry_joins_duplicates:
  "histRun trimAscii 200 emptyHistory
       [OpAppend ''select 1'' 1, OpAppend ''select 2'' 2, OpAppend ''select 1'' 3] =
     Inr \<lparr>Entries = [\<lparr>Query = ''select 1'', Timestamp = 3\<rparr>,
                      \<lparr>Query = ''select 2'', Timestamp = 2\<rparr>,
                      \<lparr>Query = ''select 1'', Timestamp = 1\<rparr>]\<rparr> \<and>
   histRun trimAscii 200 emptyHistory
       [OpAppend ''select 1'' 1, OpAppend ''select 2'' 2, OpAppend ''select 1'' 3, OpDelete 1] =
     Inr \<lparr>Entries = [\<lparr>Query = ''select 1'', Timestamp = 3\<rparr>,
                      \<lparr>Query = ''select 1'', Timestamp = 1\<rparr>]\<rparr> \<and>
   \<not> distinct_adj (queries \<lparr>Entries = [\<lparr>Query = ''select 1'', Timestamp = 3\<rparr>,
                                        \<lparr>Query = ''select 1'', Timestamp = 1\<rparr>]\<rparr>)"
  by (simp add: appendHistory_def emptyHistory_def trimAscii_def asciiSpace_def slice_to_def Let_def
      deleteEntry_def queries_def)


subsection \<open>Columns, widths and cells\<close>

lemma sortedKeys_eq: "sortedKeys r = sorted_list_of_set (fst ` set r)"
  by (simp add: sortedKeys_def sorted_list_of_set_sort_remdups [symmetric])

lemma sortedKeys_props:
  "sorted (sortedKeys r) \<and> distinct (sortedKeys r) \<and> set (sortedKeys r) = dom (map_of r)"
  by (simp add: sortedKeys_def dom_map_of_conv_image_fst)

lemma foldl_max:
  fixes g :: "'a \<Rightarrow> int"
  shows "foldl (\<lambda>w r. if w < g r then g r else w) w0 xs = Max (insert w0 (g ` set xs))"
proof (induction xs arbitrary: w0)
  case Nil
  then show ?case by simp
next
  case (Cons x xs)
  have "Max (insert w0 (g ` set (x # xs))) = max w0 (Max (insert (g x) (g ` set xs)))"
    by simp
  also have "\<dots> = Max (insert (max w0 (g x)) (g ` set xs))"
    by (cases "set xs = {}") (simp_all add: max.assoc)
  also have "max w0 (g x) = (if w0 < g x then g x else w0)"
    by (simp add: max_def)
  finally show ?case using Cons.IH [of "if w0 < g x then g x else w0"] by simp
qed

lemma columnWidth_eq:
  "columnWidth fmtFloat cfg data k =
     min (MaxColumnWidth cfg)
       (Max (insert 8 (insert (int (length k))
          ((\<lambda>r. int (length (cellString fmtFloat r k))) ` set (take 5 data)))))"
proof -
  let ?g = "\<lambda>r. int (length (cellString fmtFloat r k))"
  let ?S = "insert 8 (insert (int (length k)) (?g ` set (take 5 data)))"
  have w0: "(if int (length k) < 8 then 8 else int (length k)) = max 8 (int (length k))"
    by (simp add: max_def)
  have "foldl (\<lambda>w r. if w < ?g r then ?g r else w) (max 8 (int (length k))) (take 5 data)
      = Max (insert (max 8 (int (length k))) (?g ` set (take 5 data)))"
    by (rule foldl_max)
  also have "\<dots> = Max ?S"
    by (cases "set (take 5 data) = {}") (simp_all add: max.assoc)
  finally have F: "foldl (\<lambda>w r. if w < ?g r then ?g r else w)
      (if int (length k) < 8 then 8 else int (length k)) (take 5 data) = Max ?S"
    by (simp only: w0)
  define M where "M = Max ?S"
  have "columnWidth fmtFloat cfg data k =
      (if MaxColumnWidth cfg < M then MaxColumnWidth cfg else M)"
    unfolding columnWidth_def minColWidth_def Let_def F M_def ..
  also have "\<dots> = min (MaxColumnWidth cfg) M"
    by (simp add: min_def)
  finally show ?thesis unfolding M_def .
qed

lemma columnWidth_bounds:
  "columnWidth fmtFloat cfg data k \<le> MaxColumnWidth cfg \<and>
   (8 \<le> MaxColumnWidth cfg \<longrightarrow> 8 \<le> columnWidth fmtFloat cfg data k) \<and>
   (1 \<le> MaxColumnWidth cfg \<longrightarrow> 1 \<le> columnWidth fmtFloat cfg data k)"
proof -
  define M where "M = Max (insert 8 (insert (int (length k))
          ((\<lambda>r. int (length (cellString fmtFloat r k))) ` set (take 5 data))))"
  have "8 \<le> M" unfolding M_def by (rule Max_ge) simp_all
  moreover have "columnWidth fmtFloat cfg data k = min (MaxColumnWidth cfg) M"
    unfolding M_def by (rule columnWidth_eq)
  ultimately show ?thesis by (auto simp: min_def)
qed

lemma mapE_total:
  "(\<And>x. x \<in> set xs \<Longrightarrow> f x = Inr (g x)) \<Longrightarrow> mapE f xs = Inr (map g xs)"
  by (induction xs) simp_all

lemma renderCell_total:
  assumes "1 \<le> MaxColumnWidth cfg"
  shows "renderCell fmtFloat cfg data r k =
     Inr (let s = cellString fmtFloat r k; w = columnWidth fmtFloat cfg data k
          in if w < int (length s) then (take (nat (w - 1)) s @ ellipsis, w) else (s, w))"
proof -
  from assms columnWidth_bounds [of fmtFloat cfg data k]
  have "1 \<le> columnWidth fmtFloat cfg data k" by blast
  then show ?thesis
    by (simp add: renderCell_def Let_def truncateString_def slice_to_def)
qed

lemma renderJSONToTable_total:
  assumes "1 \<le> MaxColumnWidth cfg" "data \<noteq> []"
  shows "renderJSONToTable fmtFloat data columns cfg =
     Inr (map (\<lambda>k. (k, columnWidth fmtFloat cfg data k)) (sortedKeys (hd data)) #
          map (\<lambda>r. map (\<lambda>k. let s = cellString fmtFloat r k; w = columnWidth fmtFloat cfg data k
                             in if w < int (length s) then (take (nat (w - 1)) s @ ellipsis, w) else (s, w))
                     (sortedKeys (hd data))) data,
          sortedKeys (hd data))"
proof -
  let ?c = "\<lambda>r k. let s = cellString fmtFloat r k; w = columnWidth fmtFloat cfg data k
                             in if w < int (length s) then (take (nat (w - 1)) s @ ellipsis, w) else (s, w)"
  have row: "mapE (renderCell fmtFloat cfg data r) (sortedKeys (hd data)) = Inr (map (?c r) (sortedKeys (hd data)))" for r
    by (rule mapE_total) (simp add: renderCell_total [OF assms(1)])
  have "mapE (\<lambda>r. mapE (renderCell fmtFloat cfg data r) (sortedKeys (hd data))) data
      = Inr (map (\<lambda>r. map (?c r) (sortedKeys (hd data))) data)"
    by (rule mapE_total) (rule row)
  with assms(2) show ?thesis
    by (simp add: renderJSONToTable_def Let_def)
qed

lemma mapE_Inr_length: "mapE f xs = Inr ys \<Longrightarrow> length ys = length xs"
  by (induction xs arbitrary: ys) (auto split: sum.splits)

lemma renderJSONToTable_columns:
  assumes "renderJSONToTable fmtFloat data columns cfg = Inr (tbl, cols)"
  shows "cols = (if data = [] then columns else sortedKeys (hd data))"
  using assms by (auto simp: renderJSONToTable_def Let_def split: if_splits sum.splits)

lemma foldl_append_concat: "foldl (\<lambda>acc k. acc @ g k) h ks = h @ concat (map g ks)"
  by (induction ks arbitrary: h) simp_all

lemma cellString_present:
  "k \<in> dom (map_of r) \<Longrightarrow> cellString fmtFloat r k = sprintv fmtFloat (the (map_of r k))"
  by (auto simp: cellString_def)

text \<open>
  Claim C5, as amended. The display width of a column is the maximum of 8, the length of
  the column name and the lengths of the stringified values of the first 5 rows, capped
  at the configured maximum: \<open>min maxColumnWidth (max \<dots>)\<close>. So the width never exceeds
  \<open>maxColumnWidth\<close>, and it is at least 8 whenever \<open>maxColumnWidth \<ge> 8\<close>. For
  \<open>maxColumnWidth \<ge> 1\<close> the rendering completes, the header row holds the column names,
  and every cell whose stringified value is longer (in bytes) than the width of its
  column holds the first \<open>width - 1\<close> bytes of the value followed by the ellipsis; every
  other cell holds the value unchanged.
\<close>

theorem column_width_spec:
  "columnWidth fmtFloat cfg data k =
     min (MaxColumnWidth cfg)
       (Max (insert 8 (insert (int (length k))
          ((\<lambda>r. int (length (cellString fmtFloat r k))) ` set (take 5 data))))) \<and>
   columnWidth fmtFloat cfg data k \<le> MaxColumnWidth cfg \<and>
   (8 \<le> MaxColumnWidth cfg \<longrightarrow> 8 \<le> columnWidth fmtFloat cfg data k) \<and>
   (1 \<le> MaxColumnWidth cfg \<and> data \<noteq> [] \<longrightarrow>
      renderJSONToTable fmtFloat data columns cfg =
        Inr (map (\<lambda>k. (k, columnWidth fmtFloat cfg data k)) (sortedKeys (hd data)) #
             map (\<lambda>r. map (\<lambda>k. let s = cellString fmtFloat r k; w = columnWidth fmtFloat cfg data k
                                in if w < int (length s) then (take (nat (w - 1)) s @ ellipsis, w)
                                   else (s, w))
                        (sortedKeys (hd data))) data,
             sortedKeys (hd data))) \<and>
   (1 \<le> MaxColumnWidth cfg \<and> columnWidth fmtFloat cfg data k < int (length (cellString fmtFloat r k)) \<longrightarrow>
      renderCell fmtFloat cfg data r k =
        Inr (take (nat (columnWidth fmtFloat cfg data k - 1)) (cellString fmtFloat r k) @ ellipsis,
             columnWidth fmtFloat cfg data k) \<and>
      int (length (take (nat (columnWidth fmtFloat cfg data k - 1)) (cellString fmtFloat r k))) =
        columnWidth fmtFloat cfg data k - 1)"
proof -
  have A: "columnWidth fmtFloat cfg data k =
     min (MaxColumnWidth cfg)
       (Max (insert 8 (insert (int (length k))
          ((\<lambda>r. int (length (cellString fmtFloat r k))) ` set (take 5 data)))))"
    by (rule columnWidth_eq)
  note B = columnWidth_bounds [of fmtFloat cfg data k]
  have C: "1 \<le> MaxColumnWidth cfg \<and> data \<noteq> [] \<longrightarrow>
      renderJSONToTable fmtFloat data columns cfg =
        Inr (map (\<lambda>k. (k, columnWidth fmtFloat cfg data k)) (sortedKeys (hd data)) #
             map (\<lambda>r. map (\<lambda>k. let s = cellString fmtFloat r k; w = columnWidth fmtFloat cfg data k
                                in if w < int (length s) then (take (nat (w - 1)) s @ ellipsis, w)
                                   else (s, w))
                        (sortedKeys (hd data))) data,
             sortedKeys (hd data))"
    using renderJSONToTable_total [of cfg data fmtFloat columns] by blast
  have D: "1 \<le> MaxColumnWidth cfg \<and> columnWidth fmtFloat cfg data k < int (length (cellString fmtFloat r k)) \<longrightarrow>
      renderCell fmtFloat cfg data r k =
        Inr (take (nat (columnWidth fmtFloat cfg data k - 1)) (cellString fmtFloat r k) @ ellipsis,
             columnWidth fmtFloat cfg data k) \<and>
      int (length (take (nat (columnWidth fmtFloat cfg data k - 1)) (cellString fmtFloat r k))) =
        columnWidth fmtFloat cfg data k - 1"
  proof (intro impI, elim conjE)
    assume m: "1 \<le> MaxColumnWidth cfg"
      and l: "columnWidth fmtFloat cfg data k < int (length (cellString fmtFloat r k))"
    from m B have "1 \<le> columnWidth fmtFloat cfg data k" by blast
    with l have "int (length (take (nat (columnWidth fmtFloat cfg data k - 1)) (cellString fmtFloat r k))) =
        columnWidth fmtFloat cfg data k - 1"
      by simp
    moreover from l have "renderCell fmtFloat cfg data r k =
        Inr (take (nat (columnWidth fmtFloat cfg data k - 1)) (cellString fmtFloat r k) @ ellipsis,
             columnWidth fmtFloat cfg data k)"
      by (simp add: renderCell_total [OF m] Let_def)
    ultimately show "renderCell fmtFloat cfg data r k =
        Inr (take (nat (columnWidth fmtFloat cfg data k - 1)) (cellString fmtFloat r k) @ ellipsis,
             columnWidth fmtFloat cfg data k) \<and>
      int (length (take (nat (columnWidth fmtFloat cfg data k - 1)) (cellString fmtFloat r k))) =
        columnWidth fmtFloat cfg data k - 1" by blast
  qed
  from A B C D show ?thesis by blast
qed


theorem column_width_spec_witness:
  "columnWidth showInt DefaultConfig demoRows ''name'' = 25 \<and>
   columnWidth showInt (DefaultConfig\<lparr>MaxColumnWidth := 10\<rparr>) demoRows ''name'' = 10 \<and>
   renderJSONToTable showInt demoRows [] (DefaultConfig\<lparr>MaxColumnWidth := 10\<rparr>) =
     Inr ([[(''id'', 8), (''name'', 10)],
           [(''7'', 8), (''a very lo'' @ ellipsis, 10)],
           [(''10'', 8), (''<nil>'', 10)]],
          [''id'', ''name'']) \<and>
   renderCell showInt (DefaultConfig\<lparr>MaxColumnWidth := 10\<rparr>) demoRows (hd demoRows) ''name'' =
     Inr (''a very lo'' @ ellipsis, 10)"
proof -
  let ?cfg = "DefaultConfig\<lparr>MaxColumnWidth := 10\<rparr>"
  have hyp: "8 \<le> MaxColumnWidth DefaultConfig" "1 \<le> MaxColumnWidth ?cfg \<and> demoRows \<noteq> []"
    "1 \<le> MaxColumnWidth ?cfg \<and>
     columnWidth showInt ?cfg demoRows ''name'' < int (length (cellString showInt (hd demoRows) ''name''))"
    by code_simp+
  have c1: "columnWidth showInt DefaultConfig demoRows ''name'' = 25"
  proof -
    from column_width_spec [of showInt DefaultConfig demoRows "''name''"] hyp(1)
    have "columnWidth showInt DefaultConfig demoRows ''name'' \<le> MaxColumnWidth DefaultConfig \<and>
        8 \<le> columnWidth showInt DefaultConfig demoRows ''name''"
      by blast
    moreover have "columnWidth showInt DefaultConfig demoRows ''name'' = 25"
      by code_simp
    ultimately show ?thesis by blast
  qed
  have c2: "columnWidth showInt ?cfg demoRows ''name'' = 10"
  proof -
    from column_width_spec [of showInt ?cfg demoRows "''name''"]
    have "columnWidth showInt ?cfg demoRows ''name'' \<le> MaxColumnWidth ?cfg"
      by blast
    moreover have "MaxColumnWidth ?cfg = 10" "10 \<le> columnWidth showInt ?cfg demoRows ''name''"
      by code_simp+
    ultimately show ?thesis by simp
  qed
  have c3: "renderJSONToTable showInt demoRows [] ?cfg =
     Inr ([[(''id'', 8), (''name'', 10)],
           [(''7'', 8), (''a very lo'' @ ellipsis, 10)],
           [(''10'', 8), (''<nil>'', 10)]],
          [''id'', ''name''])"
  proof -
    from column_width_spec [of showInt ?cfg demoRows _ "[]"] hyp(2)
    have "renderJSONToTable showInt demoRows [] ?cfg =
        Inr (map (\<lambda>k. (k, columnWidth showInt ?cfg demoRows k)) (sortedKeys (hd demoRows)) #
             map (\<lambda>r. map (\<lambda>k. let s = cellString showInt r k; w = columnWidth showInt ?cfg demoRows k
                                in if w < int (length s) then (take (nat (w - 1)) s @ ellipsis, w)
                                   else (s, w))
                        (sortedKeys (hd demoRows))) demoRows,
             sortedKeys (hd demoRows))"
      by blast
    moreover have "(map (\<lambda>k. (k, columnWidth showInt ?cfg demoRows k)) (sortedKeys (hd demoRows)) #
             map (\<lambda>r. map (\<lambda>k. let s = cellString showInt r k; w = columnWidth showInt ?cfg demoRows k
                                in if w < int (length s) then (take (nat (w - 1)) s @ ellipsis, w)
                                   else (s, w))
                        (sortedKeys (hd demoRows))) demoRows,
             sortedKeys (hd demoRows)) =
          ([[(''id'', 8), (''name'', 10)],
           [(''7'', 8), (''a very lo'' @ ellipsis, 10)],
           [(''10'', 8), (''<nil>'', 10)]],
          [''id'', ''name''])"
      by code_simp
    ultimately show ?thesis by (simp only:)
  qed
  have c4: "renderCell showInt ?cfg demoRows (hd demoRows) ''name'' = Inr (''a very lo'' @ ellipsis, 10)"
  proof -
    from column_width_spec [of showInt ?cfg demoRows "''name''" _ "hd demoRows"] hyp(3)
    have "renderCell showInt ?cfg demoRows (hd demoRows) ''name'' =
        Inr (take (nat (columnWidth showInt ?cfg demoRows ''name'' - 1)) (cellString showInt (hd demoRows) ''name'') @ ellipsis,
             columnWidth showInt ?cfg demoRows ''name'')"
      by blast
    moreover have "(take (nat (columnWidth showInt ?cfg demoRows ''name'' - 1)) (cellString showInt (hd demoRows) ''name'') @ ellipsis,
             columnWidth showInt ?cfg demoRows ''name'') = (''a very lo'' @ ellipsis, 10)"
      by code_simp
    ultimately show ?thesis by (simp only:)
  qed
  from c1 c2 c3 c4 show ?thesis by blast
qed

text \<open>
  The cap is applied after the minimum: with a configured maximum of 5 the width of a
  short column is 5, below 8; and with a configured maximum of 0 the truncation of a
  non-empty value panics instead of producing a cell.
\<close>

theorem column_width_below_minimum:
  "columnWidth showInt (DefaultConfig\<lparr>MaxColumnWidth := 5\<rparr>) [[(''id'', JStr ''1'')]] ''id'' = 5 \<and>
   renderJSONToTable showInt [[(''id'', JStr ''1'')]] [] (DefaultConfig\<lparr>MaxColumnWidth := 0\<rparr>) =
     Inl SliceBoundsOutOfRange"
  by code_simp

text \<open>
  Claim C6. For a non-empty list of row-maps, the columns that \<^verbatim>\<open>renderJSONToTable\<close>
  produces are the keys of the first row in increasing order, whatever the other rows
  are: two lists with the same first row give the same columns. The rendering completes
  for every \<open>maxColumnWidth \<ge> 1\<close>.
\<close>

theorem columns_from_first_row:
  "(renderJSONToTable fmtFloat (r # rs) columns cfg = Inr (tbl, cols) \<longrightarrow>
      cols = sorted_list_of_set (dom (map_of r))) \<and>
   (renderJSONToTable fmtFloat (r # rs) columns cfg = Inr (tbl, cols) \<and>
    renderJSONToTable fmtFloat (r # rs') columns' cfg' = Inr (tbl', cols') \<longrightarrow> cols' = cols) \<and>
   (1 \<le> MaxColumnWidth cfg \<longrightarrow>
      (\<exists>tbl. renderJSONToTable fmtFloat (r # rs) columns cfg =
         Inr (tbl, sorted_list_of_set (dom (map_of r)))))"
proof -
  have k: "sortedKeys r = sorted_list_of_set (dom (map_of r))"
    by (simp add: sortedKeys_eq dom_map_of_conv_image_fst)
  have A: "renderJSONToTable fmtFloat (r # rs) columns cfg = Inr (tbl, cols) \<longrightarrow>
      cols = sorted_list_of_set (dom (map_of r))"
    using renderJSONToTable_columns [of fmtFloat "r # rs" columns cfg tbl cols] k by simp
  have B: "renderJSONToTable fmtFloat (r # rs) columns cfg = Inr (tbl, cols) \<and>
    renderJSONToTable fmtFloat (r # rs') columns' cfg' = Inr (tbl', cols') \<longrightarrow> cols' = cols"
    using renderJSONToTable_columns [of fmtFloat "r # rs" columns cfg tbl cols]
      renderJSONToTable_columns [of fmtFloat "r # rs'" columns' cfg' tbl' cols'] by auto
  have C: "1 \<le> MaxColumnWidth cfg \<longrightarrow>
      (\<exists>tbl. renderJSONToTable fmtFloat (r # rs) columns cfg =
         Inr (tbl, sorted_list_of_set (dom (map_of r))))"
    using renderJSONToTable_total [of cfg "r # rs" fmtFloat columns] k by simp
  from A B C show ?thesis by blast
qed

theorem columns_from_first_row_witness:
  "renderJSONToTable showInt demoRows [''stale''] DefaultConfig =
     Inr ([[(''id'', 8), (''name'', 25)],
           [(''7'', 8), (''a very long customer name'', 25)],
           [(''10'', 8), (''<nil>'', 25)]], [''id'', ''name'']) \<and>
   [''id'', ''name''] = sorted_list_of_set (dom (map_of (hd demoRows))) \<and>
   renderJSONToTable showInt [hd demoRows] [] DefaultConfig =
     Inr ([[(''id'', 8), (''name'', 25)],
           [(''7'', 8), (''a very long customer name'', 25)]], [''id'', ''name''])"
proof -
  let ?t = "[[(''id'', 8), (''name'', 25)],
           [(''7'', 8), (''a very long customer name'', 25)],
           [(''10'', 8), (''<nil>'', 25)]]"
  let ?t1 = "[[(''id'', 8), (''name'', 25)],
           [(''7'', 8), (''a very long customer name'', 25)]]"
  have r: "renderJSONToTable showInt demoRows [''stale''] DefaultConfig = Inr (?t, [''id'', ''name''])"
    by code_simp
  have d: "demoRows = hd demoRows # tl demoRows" by (simp add: demoRows_def)
  have m: "1 \<le> MaxColumnWidth DefaultConfig" by (simp add: DefaultConfig_def)
  from r d have r': "renderJSONToTable showInt (hd demoRows # tl demoRows) [''stale''] DefaultConfig =
     Inr (?t, [''id'', ''name''])"
    by simp
  have c2: "[''id'', ''name''] = sorted_list_of_set (dom (map_of (hd demoRows)))"
    using columns_from_first_row [of showInt "hd demoRows" "tl demoRows" "[''stale'']" DefaultConfig
        ?t "[''id'', ''name'']"] r'
    by blast
  from columns_from_first_row [of showInt "hd demoRows" "[]" "[]" DefaultConfig] m
  obtain tbl where t: "renderJSONToTable showInt [hd demoRows] [] DefaultConfig =
      Inr (tbl, sorted_list_of_set (dom (map_of (hd demoRows))))"
    by blast
  from columns_from_first_row [of showInt "hd demoRows" "tl demoRows" "[''stale'']" DefaultConfig
        ?t "[''id'', ''name'']" "[]" "[]" DefaultConfig tbl
        "sorted_list_of_set (dom (map_of (hd demoRows)))"] r' t
  have same: "sorted_list_of_set (dom (map_of (hd demoRows))) = [''id'', ''name'']"
    by blast
  have "map_sum id fst (renderJSONToTable showInt [hd demoRows] [] DefaultConfig) = Inr ?t1"
    by code_simp
  with t same have c3: "renderJSONToTable showInt [hd demoRows] [] DefaultConfig = Inr (?t1, [''id'', ''name''])"
    by simp
  from r c2 c3 show ?thesis by blast
qed

subsection \<open>The detail view\<close>

lemma updateDetailView_text:
  assumes "0 < fst (selection s)" "fst (selection s) \<le> int (length (currentData s))"
  shows "updateDetailView fmtFloat s =
     s\<lparr>detailText :=
         ''[yellow::b]Row '' @ showInt (fst (selection s)) @ ''/'' @
         showInt (int (length (currentData s))) @ ''[white]'' @ newline @
         concat (map (detailLine fmtFloat (currentData s ! nat (fst (selection s) - 1)))
                   (sortedKeys (currentData s ! nat (fst (selection s) - 1))))\<rparr>"
  using assms by (simp add: updateDetailView_def Let_def foldl_append_concat)

lemma updateDetailView_part000_text:
  assumes "0 < fst (selection s)" "fst (selection s) \<le> int (length (currentData s))"
  shows "updateDetailView_part000 fmtFloat rangeKeys s =
     s\<lparr>detailText :=
         ''[yellow::b]Row '' @ showInt (fst (selection s)) @ ''/'' @
         showInt (int (length (currentData s))) @ ''[white]'' @ newline @
         concat (map (detailLine fmtFloat (currentData s ! nat (fst (selection s) - 1)))
                   (rangeKeys (currentData s ! nat (fst (selection s) - 1))))\<rparr>"
  using assms by (simp add: updateDetailView_part000_def Let_def foldl_append_concat)

lemma detailLine_present:
  assumes "k \<in> dom (map_of rowData)"
  shows "detailLine fmtFloat rowData k = ''[yellow]'' @ k @ '':[white] '' @
                         (if 200 < length (sprintv fmtFloat (the (map_of rowData k)))
                          then take 200 (sprintv fmtFloat (the (map_of rowData k))) @ ellipsis
                          else sprintv fmtFloat (the (map_of rowData k))) @ newline"
  using assms by (simp add: detailLine_def Let_def cellString_present)

lemma updateDetailView_part000_lines:
  assumes sel: "0 < fst (selection s)" "fst (selection s) \<le> int (length (currentData s))"
      and rd: "rowData = currentData s ! nat (fst (selection s) - 1)"
      and ks: "set (rangeKeys rowData) = dom (map_of rowData)"
  shows "detailText (updateDetailView_part000 fmtFloat rangeKeys s) =
        ''[yellow::b]Row '' @ showInt (fst (selection s)) @ ''/'' @
        showInt (int (length (currentData s))) @ ''[white]'' @ newline @
        concat (map (\<lambda>k. ''[yellow]'' @ k @ '':[white] '' @
                         (if 200 < length (sprintv fmtFloat (the (map_of rowData k)))
                          then take 200 (sprintv fmtFloat (the (map_of rowData k))) @ ellipsis
                          else sprintv fmtFloat (the (map_of rowData k))) @ newline)
                  (rangeKeys rowData))"
proof -
  have M: "map (detailLine fmtFloat rowData) (rangeKeys rowData) =
        map (\<lambda>k. ''[yellow]'' @ k @ '':[white] '' @
                         (if 200 < length (sprintv fmtFloat (the (map_of rowData k)))
                          then take 200 (sprintv fmtFloat (the (map_of rowData k))) @ ellipsis
                          else sprintv fmtFloat (the (map_of rowData k))) @ newline) (rangeKeys rowData)"
    by (rule map_cong) (simp_all only: detailLine_present ks)
  have "detailText (updateDetailView_part000 fmtFloat rangeKeys s) =
        ''[yellow::b]Row '' @ showInt (fst (selection s)) @ ''/'' @
        showInt (int (length (currentData s))) @ ''[white]'' @ newline @
        concat (map (detailLine fmtFloat rowData) (rangeKeys rowData))"
    unfolding rd updateDetailView_part000_text [OF sel] by simp
  then show ?thesis unfolding M .
qed

text \<open>
  Claim C8, as amended. With a data row selected, the detail text is the header line
  followed by one line \<^verbatim>\<open>[yellow]key:[white] value\<close> for every key of the selected row;
  a value longer than 200 bytes is cut to its first 200 bytes followed by the ellipsis,
  each value on its own. The text does not depend on the columns of the table. With no
  data row selected the text says so. In \<^verbatim>\<open>src/db.go\<close> the keys come in increasing
  order; in the copy of \<^verbatim>\<open>src/unnamed/part_000\<close> there is one such line for every key
  that the loop over the map yields, in the order of the loop.
\<close>

theorem detail_projection:
  "(0 < fst (selection s) \<and> fst (selection s) \<le> int (length (currentData s)) \<and>
    rowData = currentData s ! nat (fst (selection s) - 1) \<longrightarrow>
      detailText (updateDetailView fmtFloat s) =
        ''[yellow::b]Row '' @ showInt (fst (selection s)) @ ''/'' @
        showInt (int (length (currentData s))) @ ''[white]'' @ newline @
        concat (map (\<lambda>k. ''[yellow]'' @ k @ '':[white] '' @
                         (if 200 < length (sprintv fmtFloat (the (map_of rowData k)))
                          then take 200 (sprintv fmtFloat (the (map_of rowData k))) @ ellipsis
                          else sprintv fmtFloat (the (map_of rowData k))) @ newline)
                  (sorted_list_of_set (dom (map_of rowData)))) \<and>
      detailText (updateDetailView fmtFloat (s\<lparr>currentColumns := cols\<rparr>)) =
        detailText (updateDetailView fmtFloat s)) \<and>
   (fst (selection s) \<le> 0 \<or> int (length (currentData s)) < fst (selection s) \<longrightarrow>
      detailText (updateDetailView fmtFloat s) = ''[yellow]No row selected'') \<and>
   (0 < fst (selection s) \<and> fst (selection s) \<le> int (length (currentData s)) \<and>
    rowData = currentData s ! nat (fst (selection s) - 1) \<and>
    distinct (rangeKeys rowData) \<and> set (rangeKeys rowData) = dom (map_of rowData) \<longrightarrow>
      detailText (updateDetailView_part000 fmtFloat rangeKeys s) =
        ''[yellow::b]Row '' @ showInt (fst (selection s)) @ ''/'' @
        showInt (int (length (currentData s))) @ ''[white]'' @ newline @
        concat (map (\<lambda>k. ''[yellow]'' @ k @ '':[white] '' @
                         (if 200 < length (sprintv fmtFloat (the (map_of rowData k)))
                          then take 200 (sprintv fmtFloat (the (map_of rowData k))) @ ellipsis
                          else sprintv fmtFloat (the (map_of rowData k))) @ newline)
                  (rangeKeys rowData)) \<and>
      detailText (updateDetailView_part000 fmtFloat rangeKeys (s\<lparr>currentColumns := cols\<rparr>)) =
        detailText (updateDetailView_part000 fmtFloat rangeKeys s)) \<and>
   (fst (selection s) \<le> 0 \<or> int (length (currentData s)) < fst (selection s) \<longrightarrow>
      detailText (updateDetailView_part000 fmtFloat rangeKeys s) = ''[yellow]No row selected'')"
proof -
  have A: "detailText (updateDetailView fmtFloat s) =
        ''[yellow::b]Row '' @ showInt (fst (selection s)) @ ''/'' @
        showInt (int (length (currentData s))) @ ''[white]'' @ newline @
        concat (map (\<lambda>k. ''[yellow]'' @ k @ '':[white] '' @
                         (if 200 < length (sprintv fmtFloat (the (map_of rowData k)))
                          then take 200 (sprintv fmtFloat (the (map_of rowData k))) @ ellipsis
                          else sprintv fmtFloat (the (map_of rowData k))) @ newline)
                  (sorted_list_of_set (dom (map_of rowData)))) \<and>
      detailText (updateDetailView fmtFloat (s\<lparr>currentColumns := cols\<rparr>)) =
        detailText (updateDetailView fmtFloat s)"
    if sel: "0 < fst (selection s)" "fst (selection s) \<le> int (length (currentData s))"
      and rd: "rowData = currentData s ! nat (fst (selection s) - 1)"
  proof -
    have k: "sortedKeys rowData = sorted_list_of_set (dom (map_of rowData))"
      by (simp add: sortedKeys_eq dom_map_of_conv_image_fst)
    have line: "detailLine fmtFloat rowData k = ''[yellow]'' @ k @ '':[white] '' @
                         (if 200 < length (sprintv fmtFloat (the (map_of rowData k)))
                          then take 200 (sprintv fmtFloat (the (map_of rowData k))) @ ellipsis
                          else sprintv fmtFloat (the (map_of rowData k))) @ newline"
      if "k \<in> set (sortedKeys rowData)" for k
    proof -
      from that have "k \<in> dom (map_of rowData)" using sortedKeys_props [of rowData] by simp
      then show ?thesis by (simp add: detailLine_def Let_def cellString_present)
    qed
    have M: "map (detailLine fmtFloat rowData) (sortedKeys rowData) =
        map (\<lambda>k. ''[yellow]'' @ k @ '':[white] '' @
                         (if 200 < length (sprintv fmtFloat (the (map_of rowData k)))
                          then take 200 (sprintv fmtFloat (the (map_of rowData k))) @ ellipsis
                          else sprintv fmtFloat (the (map_of rowData k))) @ newline) (sortedKeys rowData)"
      by (rule map_cong) (simp_all only: line)
    have "detailText (updateDetailView fmtFloat s) =
        ''[yellow::b]Row '' @ showInt (fst (selection s)) @ ''/'' @
        showInt (int (length (currentData s))) @ ''[white]'' @ newline @
        concat (map (detailLine fmtFloat rowData) (sortedKeys rowData))"
      unfolding rd updateDetailView_text [OF sel] by simp
    then have "detailText (updateDetailView fmtFloat s) =
        ''[yellow::b]Row '' @ showInt (fst (selection s)) @ ''/'' @
        showInt (int (length (currentData s))) @ ''[white]'' @ newline @
        concat (map (\<lambda>k. ''[yellow]'' @ k @ '':[white] '' @
                         (if 200 < length (sprintv fmtFloat (the (map_of rowData k)))
                          then take 200 (sprintv fmtFloat (the (map_of rowData k))) @ ellipsis
                          else sprintv fmtFloat (the (map_of rowData k))) @ newline)
                  (sortedKeys rowData))"
      unfolding M .
    then have 1: "detailText (updateDetailView fmtFloat s) =
        ''[yellow::b]Row '' @ showInt (fst (selection s)) @ ''/'' @
        showInt (int (length (currentData s))) @ ''[white]'' @ newline @
        concat (map (\<lambda>k. ''[yellow]'' @ k @ '':[white] '' @
                         (if 200 < length (sprintv fmtFloat (the (map_of rowData k)))
                          then take 200 (sprintv fmtFloat (the (map_of rowData k))) @ ellipsis
                          else sprintv fmtFloat (the (map_of rowData k))) @ newline)
                  (sorted_list_of_set (dom (map_of rowData))))"
      unfolding k .
    from sel have 2: "detailText (updateDetailView fmtFloat (s\<lparr>currentColumns := cols\<rparr>)) =
        detailText (updateDetailView fmtFloat s)"
      by (simp add: updateDetailView_text)
    from 1 2 show ?thesis by blast
  qed
  have B: "fst (selection s) \<le> 0 \<or> int (length (currentData s)) < fst (selection s) \<longrightarrow>
      detailText (updateDetailView fmtFloat s) = ''[yellow]No row selected''"
    by (auto simp: updateDetailView_def Let_def)
  have C: "detailText (updateDetailView_part000 fmtFloat rangeKeys s) =
        ''[yellow::b]Row '' @ showInt (fst (selection s)) @ ''/'' @
        showInt (int (length (currentData s))) @ ''[white]'' @ newline @
        concat (map (\<lambda>k. ''[yellow]'' @ k @ '':[white] '' @
                         (if 200 < length (sprintv fmtFloat (the (map_of rowData k)))
                          then take 200 (sprintv fmtFloat (the (map_of rowData k))) @ ellipsis
                          else sprintv fmtFloat (the (map_of rowData k))) @ newline)
                  (rangeKeys rowData)) \<and>
      detailText (updateDetailView_part000 fmtFloat rangeKeys (s\<lparr>currentColumns := cols\<rparr>)) =
        detailText (updateDetailView_part000 fmtFloat rangeKeys s)"
    if sel: "0 < fst (selection s)" "fst (selection s) \<le> int (length (currentData s))"
      and rd: "rowData = currentData s ! nat (fst (selection s) - 1)"
      and ks: "set (rangeKeys rowData) = dom (map_of rowData)"
  proof -
    from sel have "detailText (updateDetailView_part000 fmtFloat rangeKeys (s\<lparr>currentColumns := cols\<rparr>)) =
        detailText (updateDetailView_part000 fmtFloat rangeKeys s)"
      by (simp add: updateDetailView_part000_text)
    with updateDetailView_part000_lines [of s rowData rangeKeys fmtFloat] sel rd ks show ?thesis by blast
  qed
  have D: "fst (selection s) \<le> 0 \<or> int (length (currentData s)) < fst (selection s) \<longrightarrow>
      detailText (updateDetailView_part000 fmtFloat rangeKeys s) = ''[yellow]No row selected''"
    by (auto simp: updateDetailView_part000_def Let_def)
  from A B C D show ?thesis by blast
qed

theorem detail_projection_witness:
  "detailText (updateDetailView showInt demoSession) =
     ''[yellow::b]Row 2/2[white]'' @ newline @
     ''[yellow]extra:[white] true'' @ newline @
     ''[yellow]id:[white] 10'' @ newline \<and>
   detailText (updateDetailView showInt (demoSession\<lparr>selection := (0, 0)\<rparr>)) = ''[yellow]No row selected'' \<and>
   detailText (updateDetailView_part000 showInt (\<lambda>r. remdups (map fst r)) demoSession) =
     ''[yellow::b]Row 2/2[white]'' @ newline @
     ''[yellow]id:[white] 10'' @ newline @
     ''[yellow]extra:[white] true'' @ newline"
proof -
  let ?row = "[(''id'', JNum (10::int)), (''extra'', JBool True)]"
  have h: "0 < fst (selection demoSession) \<and>
      fst (selection demoSession) \<le> int (length (currentData demoSession)) \<and>
      ?row = currentData demoSession ! nat (fst (selection demoSession) - 1)"
    by (simp add: demoSession_def demoRows_def)
  have ev: "fst (selection demoSession) = 2" "int (length (currentData demoSession)) = 2"
    "sorted_list_of_set (dom (map_of ?row)) = [''extra'', ''id'']"
    by (simp_all add: demoSession_def demoRows_def)
  have sh: "showInt 2 = ''2''" "showInt 10 = ''10''"
    by code_simp+
  from detail_projection [of demoSession ?row showInt] h
  have "detailText (updateDetailView showInt demoSession) =
        ''[yellow::b]Row '' @ showInt (fst (selection demoSession)) @ ''/'' @
        showInt (int (length (currentData demoSession))) @ ''[white]'' @ newline @
        concat (map (\<lambda>k. ''[yellow]'' @ k @ '':[white] '' @
                         (if 200 < length (sprintv showInt (the (map_of ?row k)))
                          then take 200 (sprintv showInt (the (map_of ?row k))) @ ellipsis
                          else sprintv showInt (the (map_of ?row k))) @ newline)
                  (sorted_list_of_set (dom (map_of ?row))))"
    by blast
  then have c1: "detailText (updateDetailView showInt demoSession) =
     ''[yellow::b]Row 2/2[white]'' @ newline @
     ''[yellow]extra:[white] true'' @ newline @
     ''[yellow]id:[white] 10'' @ newline"
    by (simp add: ev sh)
  have c2: "detailText (updateDetailView showInt (demoSession\<lparr>selection := (0, 0)\<rparr>)) = ''[yellow]No row selected''"
    using detail_projection [of "demoSession\<lparr>selection := (0, 0)\<rparr>" _ showInt]
    by simp
  let ?rk = "\<lambda>r :: int row. remdups (map fst r)"
  have ev3: "?rk ?row = [''id'', ''extra'']" by simp
  have h3: "distinct (?rk ?row) \<and> set (?rk ?row) = dom (map_of ?row)"
    by (simp add: dom_map_of_conv_image_fst)
  from detail_projection [of demoSession ?row showInt _ ?rk] h h3
  have "detailText (updateDetailView_part000 showInt ?rk demoSession) =
        ''[yellow::b]Row '' @ showInt (fst (selection demoSession)) @ ''/'' @
        showInt (int (length (currentData demoSession))) @ ''[white]'' @ newline @
        concat (map (\<lambda>k. ''[yellow]'' @ k @ '':[white] '' @
                         (if 200 < length (sprintv showInt (the (map_of ?row k)))
                          then take 200 (sprintv showInt (the (map_of ?row k))) @ ellipsis
                          else sprintv showInt (the (map_of ?row k))) @ newline)
                  (?rk ?row))"
    by blast
  then have c3: "detailText (updateDetailView_part000 showInt ?rk demoSession) =
     ''[yellow::b]Row 2/2[white]'' @ newline @
     ''[yellow]id:[white] 10'' @ newline @
     ''[yellow]extra:[white] true'' @ newline"
    unfolding ev3 by (simp add: ev sh)
  from c1 c2 c3 show ?thesis by blast
qed

text \<open>
  The cut is made on bytes, not on characters: the value of \<^const>\<open>wideSession\<close> has 101
  characters in 201 bytes, and it is cut after its first 200 bytes, in the middle of its
  last character. And where the copy in \<^verbatim>\<open>src/unnamed/part_000\<close> is given the keys
  \<open>id\<close>, \<open>extra\<close> in this order by the loop over the map, it shows them in this order,
  which is not the lexicographic one.
\<close>

theorem detail_projection_cuts_bytes:
  "length wideValue = 201 \<and> utf8Length wideValue = 101 \<and>
   detailText (updateDetailView showInt wideSession) =
     ''[yellow::b]Row 1/1[white]'' @ newline @
     ''[yellow]v:[white] a'' @ concat (replicate 99 [CHR 0xC3, CHR 0xA9]) @ [CHR 0xC3] @
     ellipsis @ newline \<and>
   detailText (updateDetailView_part000 showInt (\<lambda>r. remdups (map fst r)) demoSession) =
     ''[yellow::b]Row 2/2[white]'' @ newline @
     ''[yellow]id:[white] 10'' @ newline @
     ''[yellow]extra:[white] true'' @ newline"
  by code_simp


subsection \<open>Sorting\<close>
























subsection \<open>Classification of the response\<close>

lemma fetchQuery_cases:
  assumes "httpGet (apiBase @ queryEscape query) = Inr b"
  shows "fetchQuery queryEscape httpGet decode apiBase query =
     (case Option.bind (decode b) unmarshalRows of
        Some arr \<Rightarrow> Inr (PRows arr, ''json'', b)
      | None \<Rightarrow> (case decode b of
                   Some gen \<Rightarrow> Inr (PGeneric gen, ''json'', b)
                 | None \<Rightarrow> Inr (PText b, ''text'', b)))"
  using assms by (simp add: fetchQuery_def Let_def)

text \<open>
  Claim C1. A failed request is returned as the error. On a body that was read,
  \<^verbatim>\<open>fetchQuery\<close> first tries the body as a list of row-maps and, when that succeeds,
  returns the rows with the kind \<^verbatim>\<open>json\<close> (the tabular shape); otherwise it tries the
  body as any JSON and, when that succeeds, returns the decoded value with the kind
  \<^verbatim>\<open>json\<close> (the scalar or structured shape); otherwise it returns the raw body with the
  kind \<^verbatim>\<open>text\<close>. The raw body is the third result in every case. So a body that
  decodes to an array of one object with the key \<open>a\<close> is tabular, a body that decodes to
  an array of three numbers is scalar or structured, and a body that is not JSON is text.
\<close>

theorem fetchQuery_classification:
  "(httpGet (apiBase @ queryEscape query) = Inl err \<longrightarrow>
      fetchQuery queryEscape httpGet decode apiBase query = Inl err) \<and>
   (httpGet (apiBase @ queryEscape query) = Inr b \<and>
    Option.bind (decode b) unmarshalRows = Some arr \<longrightarrow>
      fetchQuery queryEscape httpGet decode apiBase query = Inr (PRows arr, ''json'', b)) \<and>
   (httpGet (apiBase @ queryEscape query) = Inr b \<and>
    Option.bind (decode b) unmarshalRows = None \<and> decode b = Some gen \<longrightarrow>
      fetchQuery queryEscape httpGet decode apiBase query = Inr (PGeneric gen, ''json'', b)) \<and>
   (httpGet (apiBase @ queryEscape query) = Inr b \<and> decode b = None \<longrightarrow>
      fetchQuery queryEscape httpGet decode apiBase query = Inr (PText b, ''text'', b)) \<and>
   (httpGet (apiBase @ queryEscape query) = Inr b \<and>
    decode b = Some (JArr [JObj [(''a'', JNum one)]]) \<longrightarrow>
      map_sum id (shapeOf \<circ> fst) (fetchQuery queryEscape httpGet decode apiBase query) =
        Inr TabularRows) \<and>
   (httpGet (apiBase @ queryEscape query) = Inr b \<and>
    decode b = Some (JArr [JNum x, JNum y, JNum z]) \<longrightarrow>
      map_sum id (shapeOf \<circ> fst) (fetchQuery queryEscape httpGet decode apiBase query) =
        Inr ScalarStructured) \<and>
   (httpGet (apiBase @ queryEscape query) = Inr b \<and> decode b = None \<longrightarrow>
      map_sum id (shapeOf \<circ> fst) (fetchQuery queryEscape httpGet decode apiBase query) =
        Inr Text)"
  by (auto simp: fetchQuery_def Let_def)

theorem fetchQuery_classification_witness:
  "fetchQuery id (\<lambda>url. Inr bodyRows) jsonDecode ''http://localhost:8000/db?q='' ''select 1'' =
     Inr (PRows [[(''a'', JNum 1)]], ''json'', bodyRows) \<and>
   map_sum id (shapeOf \<circ> fst)
     (fetchQuery id (\<lambda>url. Inr bodyRows) jsonDecode ''http://localhost:8000/db?q='' ''select 1'') =
     Inr TabularRows \<and>
   fetchQuery id (\<lambda>url. Inr bodyScalars) jsonDecode ''http://localhost:8000/db?q='' ''select 1'' =
     Inr (PGeneric (JArr [JNum 1, JNum 2, JNum 3]), ''json'', bodyScalars) \<and>
   map_sum id (shapeOf \<circ> fst)
     (fetchQuery id (\<lambda>url. Inr bodyScalars) jsonDecode ''http://localhost:8000/db?q='' ''select 1'') =
     Inr ScalarStructured \<and>
   fetchQuery id (\<lambda>url. Inr bodyText) jsonDecode ''http://localhost:8000/db?q='' ''select 1'' =
     Inr (PText bodyText, ''text'', bodyText) \<and>
   map_sum id (shapeOf \<circ> fst)
     (fetchQuery id (\<lambda>url. Inr bodyText) jsonDecode ''http://localhost:8000/db?q='' ''select 1'') =
     Inr Text \<and>
   fetchQuery id (\<lambda>url. Inl (IOErr ''connection refused'')) jsonDecode
       ''http://localhost:8000/db?q='' ''select 1'' = Inl (IOErr ''connection refused'')"
proof -
  have d: "jsonDecode bodyRows = Some (JArr [JObj [(''a'', JNum 1)]])"
    "jsonDecode bodyScalars = Some (JArr [JNum 1, JNum 2, JNum 3])"
    "jsonDecode bodyText = None"
    by code_simp+
  have u: "Option.bind (jsonDecode bodyRows) unmarshalRows = Some [[(''a'', JNum 1)]]"
    "Option.bind (jsonDecode bodyScalars) unmarshalRows = None"
    by (simp_all add: d)
  let ?api = "''http://localhost:8000/db?q=''"
  let ?q = "''select 1''"
  note r = fetchQuery_classification [of "\<lambda>url. Inr bodyRows" ?api id ?q _ jsonDecode bodyRows
      "[[(''a'', JNum 1)]]" _ 1]
  note sc = fetchQuery_classification [of "\<lambda>url. Inr bodyScalars" ?api id ?q _ jsonDecode bodyScalars
      _ "JArr [JNum 1, JNum 2, JNum 3]" _ 1 2 3]
  note t = fetchQuery_classification [of "\<lambda>url. Inr bodyText" ?api id ?q _ jsonDecode bodyText]
  note e = fetchQuery_classification [of "\<lambda>url. Inl (IOErr ''connection refused'')" ?api id ?q
      "IOErr ''connection refused''" jsonDecode]
  from r d u have c1: "fetchQuery id (\<lambda>url. Inr bodyRows) jsonDecode ?api ?q =
     Inr (PRows [[(''a'', JNum 1)]], ''json'', bodyRows)"
    "map_sum id (shapeOf \<circ> fst) (fetchQuery id (\<lambda>url. Inr bodyRows) jsonDecode ?api ?q) = Inr TabularRows"
    by blast+
  from sc d u have c2: "fetchQuery id (\<lambda>url. Inr bodyScalars) jsonDecode ?api ?q =
     Inr (PGeneric (JArr [JNum 1, JNum 2, JNum 3]), ''json'', bodyScalars)"
    "map_sum id (shapeOf \<circ> fst) (fetchQuery id (\<lambda>url. Inr bodyScalars) jsonDecode ?api ?q) = Inr ScalarStructured"
    by blast+
  from t d have c3: "fetchQuery id (\<lambda>url. Inr bodyText) jsonDecode ?api ?q =
     Inr (PText bodyText, ''text'', bodyText)"
    "map_sum id (shapeOf \<circ> fst) (fetchQuery id (\<lambda>url. Inr bodyText) jsonDecode ?api ?q) = Inr Text"
    by blast+
  from e have c4: "fetchQuery id (\<lambda>url. Inl (IOErr ''connection refused'')) jsonDecode ?api ?q =
      Inl (IOErr ''connection refused'')"
    by blast
  from c1 c2 c3 c4 show ?thesis by blast
qed

lemma showInt_zero: "showInt 0 = ''0''"
  by code_simp

lemma those_length: "those xs = Some ys \<Longrightarrow> length ys = length xs"
  by (induction xs arbitrary: ys) (auto split: option.splits)

lemma unmarshalRows_empty: "unmarshalRows v = Some [] \<longleftrightarrow> v = JNull \<or> v = JArr []"
  by (cases v) (auto dest: those_length)

text \<open>
  Claim C9. Decoding into a list of row-maps succeeds with no rows exactly on \<^verbatim>\<open>null\<close>
  and on the empty array. On a body that decodes to one of them \<^verbatim>\<open>fetchQuery\<close>
  returns the empty list of rows with the kind \<^verbatim>\<open>json\<close>, the tabular shape and
  neither of the other two; and applying that result clears the table, sets the row
  count to 0, the title to \<^verbatim>\<open>Results (0 rows)\<close>, the detail text to \<^verbatim>\<open>No results\<close> and
  the status to \<^verbatim>\<open>Fetched 0 rows\<close>.
\<close>

theorem empty_rows_response:
  "(unmarshalRows v = Some [] \<longleftrightarrow> v = JNull \<or> v = JArr []) \<and>
   (httpGet (apiBase @ queryEscape query) = Inr b \<and>
    (decode b = Some JNull \<or> decode b = Some (JArr [])) \<longrightarrow>
      fetchQuery queryEscape httpGet decode apiBase query = Inr (PRows [], ''json'', b)) \<and>
   (httpGet (apiBase @ queryEscape query) = Inr b \<and>
    Option.bind (decode b) unmarshalRows = Some [] \<longrightarrow>
      fetchQuery queryEscape httpGet decode apiBase query = Inr (PRows [], ''json'', b) \<and>
      map_sum id (shapeOf \<circ> fst) (fetchQuery queryEscape httpGet decode apiBase query) =
        Inr TabularRows) \<and>
   applyResult fmtFloat cfg s (Inr (PRows [], ''json'', b)) =
     Inr (s\<lparr>rawText := b, currentData := [], table := [], currentRowCount := 0,
            tableTitle := ''Results (0 rows)'', detailText := ''[yellow]No results'',
            statusText := ''[green]Fetched 0 rows''\<rparr>)"
proof -
  have A: "unmarshalRows v = Some [] \<longleftrightarrow> v = JNull \<or> v = JArr []"
    by (rule unmarshalRows_empty)
  have B: "httpGet (apiBase @ queryEscape query) = Inr b \<and>
    (decode b = Some JNull \<or> decode b = Some (JArr [])) \<longrightarrow>
      fetchQuery queryEscape httpGet decode apiBase query = Inr (PRows [], ''json'', b)"
    by (auto simp: fetchQuery_def Let_def)
  have C: "httpGet (apiBase @ queryEscape query) = Inr b \<and>
    Option.bind (decode b) unmarshalRows = Some [] \<longrightarrow>
      fetchQuery queryEscape httpGet decode apiBase query = Inr (PRows [], ''json'', b) \<and>
      map_sum id (shapeOf \<circ> fst) (fetchQuery queryEscape httpGet decode apiBase query) =
        Inr TabularRows"
    by (auto simp: fetchQuery_def Let_def)
  have D: "applyResult fmtFloat cfg s (Inr (PRows [], ''json'', b)) =
     Inr (s\<lparr>rawText := b, currentData := [], table := [], currentRowCount := 0,
            tableTitle := ''Results (0 rows)'', detailText := ''[yellow]No results'',
            statusText := ''[green]Fetched 0 rows''\<rparr>)"
    by (simp add: applyResult_def renderJSONToTable_def Let_def showInt_zero)
  from A B C D show ?thesis by blast
qed

theorem empty_rows_response_witness:
  "fetchQuery id (\<lambda>url. Inr ''null'') jsonDecode ''http://localhost:8000/db?q='' ''select 1'' =
     Inr (PRows [], ''json'', ''null'') \<and>
   fetchQuery id (\<lambda>url. Inr ''[]'') jsonDecode ''http://localhost:8000/db?q='' ''select 1'' =
     Inr (PRows [], ''json'', ''[]'') \<and>
   map_sum id (shapeOf \<circ> fst)
     (fetchQuery id (\<lambda>url. Inr ''null'') jsonDecode ''http://localhost:8000/db?q='' ''select 1'') =
     Inr TabularRows"
proof -
  have d: "jsonDecode ''null'' = Some JNull" "jsonDecode ''[]'' = Some (JArr [])"
    by code_simp+
  let ?api = "''http://localhost:8000/db?q=''"
  let ?q = "''select 1''"
  from empty_rows_response [of _ "\<lambda>url. Inr ''null''" ?api id ?q "''null''" jsonDecode] d
  have c1: "fetchQuery id (\<lambda>url. Inr ''null'') jsonDecode ?api ?q = Inr (PRows [], ''json'', ''null'')"
    by blast
  from empty_rows_response [of _ "\<lambda>url. Inr ''[]''" ?api id ?q "''[]''" jsonDecode] d
  have c2: "fetchQuery id (\<lambda>url. Inr ''[]'') jsonDecode ?api ?q = Inr (PRows [], ''json'', ''[]'')"
    by blast
  have "Option.bind (jsonDecode ''null'') unmarshalRows = Some []" by (simp add: d)
  with empty_rows_response [of _ "\<lambda>url. Inr ''null''" ?api id ?q "''null''" jsonDecode]
  have c3: "map_sum id (shapeOf \<circ> fst) (fetchQuery id (\<lambda>url. Inr ''null'') jsonDecode ?api ?q) = Inr TabularRows"
    by blast
  from c1 c2 c3 show ?thesis by blast
qed

subsection \<open>Saving and loading the history\<close>








end
